theory Spec2Isabelle
  imports Main
begin

section \<open>Data migration between two schemas: \<open>scripts/migrate_db_data.py\<close>\<close>

text \<open>
  The script copies the rows of a fixed list of tables from a source schema to a target
  schema. Both databases are external: what they answer to a query is an input of the
  model (the record \<open>env\<close> below), and what the script asks of them is recorded in a
  \<open>world\<close> that every function takes and returns.
\<close>

subsection \<open>Static configuration\<close>

type_synonym column = string

definition SOURCE_SCHEMA :: string where
  "SOURCE_SCHEMA = ''arbitrage''"

definition TARGET_SCHEMA :: string where
  "TARGET_SCHEMA = ''mig_topology''"

definition TABLES_TO_MIGRATE :: "string list" where
  "TABLES_TO_MIGRATE =
     [''tokens'', ''pools'', ''dex_state'', ''pool_state_snapshots'', ''token_relations'',
      ''audit_log'', ''graph_weights'', ''pool_statistics'', ''dex_statistics'',
      ''configurations'', ''event_index'']"

text \<open>
  An entry of \<open>COLUMN_MAPPING\<close> is a dictionary that may hold the key \<open>'exclude'\<close> and
  may hold the key \<open>'include'\<close>; an absent key is \<open>None\<close>.
\<close>

record col_mapping =
  exclude_cols :: "column list option"
  include_cols :: "column list option"

definition COLUMN_MAPPING :: "string \<Rightarrow> col_mapping option" where
  "COLUMN_MAPPING =
     [''pool_statistics'' \<mapsto>
        \<lparr>exclude_cols = Some [''avg_profit_usd'', ''profit_sample_count'', ''last_profit_usd''],
         include_cols = Some [''pool_address'', ''tvl_usd'', ''volatility_bps'',
                              ''volatility_sample_count'', ''updated_at'']\<rparr>]"

subsection \<open>Column reconciliation (\<open>migrate_table\<close>, lines 140 to 149)\<close>

text \<open>
  \<open>apply_mapping\<close> is the body of \<open>if table in COLUMN_MAPPING\<close>: the exclude list is
  applied first, the include list second. \<open>common_columns\<close> then keeps the source columns
  that the target has, in source order.
\<close>

definition apply_mapping :: "col_mapping option \<Rightarrow> column list \<Rightarrow> column list" where
  "apply_mapping rule source_columns =
     (case rule of
        None \<Rightarrow> source_columns
      | Some mapping \<Rightarrow>
          (let cols1 = (case exclude_cols mapping of
                          None \<Rightarrow> source_columns
                        | Some ex \<Rightarrow> filter (\<lambda>c. c \<notin> set ex) source_columns)
           in (case include_cols mapping of
                 None \<Rightarrow> cols1
               | Some inc \<Rightarrow> filter (\<lambda>c. c \<in> set inc) cols1)))"

definition common_columns ::
  "col_mapping option \<Rightarrow> column list \<Rightarrow> column list \<Rightarrow> column list" where
  "common_columns rule source_columns target_columns =
     filter (\<lambda>c. c \<in> set target_columns) (apply_mapping rule source_columns)"

text \<open>
  The reconciliation as the specification words it: restrict to the include list, then
  remove the exclude list, then intersect with the target columns.
\<close>

definition reconcile_spec ::
  "column list \<Rightarrow> column list \<Rightarrow> col_mapping option \<Rightarrow> column list" where
  "reconcile_spec sourceColumns targetColumns overrideRule =
     (let included = (case overrideRule of
                        None \<Rightarrow> sourceColumns
                      | Some r \<Rightarrow> (case include_cols r of
                                    None \<Rightarrow> sourceColumns
                                  | Some inc \<Rightarrow> filter (\<lambda>c. c \<in> set inc) sourceColumns));
          remaining = (case overrideRule of
                         None \<Rightarrow> included
                       | Some r \<Rightarrow> (case exclude_cols r of
                                     None \<Rightarrow> included
                                   | Some ex \<Rightarrow> filter (\<lambda>c. c \<notin> set ex) included))
      in filter (\<lambda>c. c \<in> set targetColumns) remaining)"

subsection \<open>Primary key lookup and conflict strategy (lines 191 to 222)\<close>

text \<open>
  The target catalog answers the primary-key query with one row per column of the
  constraint. \<open>cur.fetchone()\<close> takes the first row, or \<open>None\<close> when there is no row.
\<close>

definition pk_column :: "column list \<Rightarrow> column option" where
  "pk_column pk_result_rows = (case pk_result_rows of [] \<Rightarrow> None | c # _ \<Rightarrow> Some c)"

text \<open>
  The two statements the script can build. \<open>OnConflictUpdate schema table columns pk sets\<close>
  stands for \<open>INSERT INTO "schema"."table" (columns) VALUES (...) ON CONFLICT ("pk") DO
  UPDATE SET c = EXCLUDED.c\<close> with one assignment for each \<open>c\<close> of \<open>sets\<close>;
  \<open>OnConflictNothing schema table columns\<close> stands for \<open>INSERT INTO "schema"."table"
  (columns) VALUES (...) ON CONFLICT DO NOTHING\<close>.
\<close>

datatype statement =
    OnConflictUpdate string string "column list" column "column list"
  | OnConflictNothing string string "column list"

text \<open>
  \<open>if pk_column and pk_column in common_columns\<close>: in Python \<open>None\<close> and the empty
  string are both false.
\<close>

definition insert_query ::
  "string \<Rightarrow> string \<Rightarrow> column option \<Rightarrow> column list \<Rightarrow> statement" where
  "insert_query target_schema table pk cols =
     (case pk of
        None \<Rightarrow> OnConflictNothing target_schema table cols
      | Some k \<Rightarrow>
          if k \<noteq> [] \<and> k \<in> set cols
          then OnConflictUpdate target_schema table cols k (filter (\<lambda>c. c \<noteq> k) cols)
          else OnConflictNothing target_schema table cols)"

subsection \<open>Results\<close>

text \<open>
  The three dictionaries \<open>migrate_table\<close> returns, by their \<open>'status'\<close>; \<open>table_name\<close>
  is the key \<open>'table'\<close>.
\<close>

datatype result =
    Success (table_name: string) (rows_migrated: nat) (columns_migrated: nat)
  | Skipped (table_name: string) (reason: string) (rows_migrated: nat)
  | Error (table_name: string) (error: string) (rows_migrated: nat)

fun status :: "result \<Rightarrow> string" where
  "status (Success _ _ _) = ''success''"
| "status (Skipped _ _ _) = ''skipped''"
| "status (Error _ _ _) = ''error''"

definition reason_no_common_columns :: string where
  "reason_no_common_columns = ''No hay columnas comunes''"

text \<open>\<open>'Tabla vac\'ia en origen'\<close> and \<open>'Usuario cancel\'o'\<close>, as UTF-8 bytes.\<close>

definition reason_source_empty :: string where
  "reason_source_empty = ''Tabla vac'' @ [CHR 0xC3, CHR 0xAD] @ ''a en origen''"

definition reason_user_cancelled :: string where
  "reason_user_cancelled = ''Usuario cancel'' @ [CHR 0xC3, CHR 0xB3]"

subsection \<open>The two databases and the operator\<close>

text \<open>
  A row of the source cursor (a \<open>RealDictCursor\<close> row) is read at the selected columns
  only. A batch is the list of value tuples handed to \<open>executemany\<close>.
\<close>

type_synonym 'v row = "column \<Rightarrow> 'v"
type_synonym 'v batch = "'v list list"

datatype side = Source | Target

datatype prompt = ContinueRun | OverwriteTable string nat

datatype 'v event =
    GetColumns side string string
  | RowCount side string string
  | Input prompt
  | PkQuery string string
  | Select string string "column list"
  | ExecuteMany statement "'v batch"
  | Commit
  | Rollback

text \<open>
  A write that \<open>executemany\<close> has carried out: the statement, the batch, and the number
  of rows the database reports it has written (the cursor's \<open>rowcount\<close>, which the script
  never reads).
\<close>

record 'v written =
  sent_query :: statement
  sent_batch :: "'v batch"
  rowcount :: nat

text \<open>
  The world: the writes the target has committed, the writes of the open transaction
  of the target connection, and every call made so far, in order.
\<close>

record 'v world =
  committed :: "'v written list"
  pending :: "'v written list"
  trace :: "'v event list"

text \<open>
  The environment: what the databases, the operator and the clock answer.
  \<open>executemany\<close> and \<open>commit\<close> on the target may raise, depending on everything that
  happened before: \<open>executemany_result\<close> is the message raised or the \<open>rowcount\<close>, and
  \<open>commit_result\<close> is the message raised, if any. \<open>rollback\<close> may raise as well, as it
  does on a connection that is lost: \<open>rollback_result\<close> is the message raised, if any.
  Catalog queries, row counts, the primary-key query and the source cursor are taken to
  answer: the model has no branch for an exception there. \<open>input_response\<close> is what the
  operator types at a prompt, and \<open>now_isoformat\<close> the clock when the log is written.
\<close>

record 'v env =
  can_connect :: "side \<Rightarrow> bool"
  table_exists :: "side \<Rightarrow> string \<Rightarrow> string \<Rightarrow> bool"
  table_columns :: "side \<Rightarrow> string \<Rightarrow> string \<Rightarrow> column list"
  table_row_count :: "side \<Rightarrow> string \<Rightarrow> string \<Rightarrow> nat"
  input_response :: "prompt \<Rightarrow> string"
  pk_result_rows :: "string \<Rightarrow> string \<Rightarrow> column list"
  source_rows :: "string \<Rightarrow> string \<Rightarrow> column list \<Rightarrow> 'v row list"
  executemany_result :: "'v world \<Rightarrow> statement \<Rightarrow> 'v batch \<Rightarrow> string + nat"
  commit_result :: "'v world \<Rightarrow> string option"
  rollback_result :: "'v world \<Rightarrow> string option"
  now_isoformat :: string

definition record_calls :: "'v event list \<Rightarrow> 'v world \<Rightarrow> 'v world" where
  "record_calls es w = w\<lparr>trace := trace w @ es\<rparr>"

definition executemany ::
  "'v env \<Rightarrow> statement \<Rightarrow> 'v batch \<Rightarrow> 'v world \<Rightarrow> (string \<times> 'v world) + 'v world" where
  "executemany env q batch w =
     (case executemany_result env w q batch of
        Inl e \<Rightarrow> Inl (e, record_calls [ExecuteMany q batch] w)
      | Inr rc \<Rightarrow>
          Inr (record_calls [ExecuteMany q batch]
                 (w\<lparr>pending := pending w
                              @ [\<lparr>sent_query = q, sent_batch = batch, rowcount = rc\<rparr>]\<rparr>)))"

definition commit :: "'v env \<Rightarrow> 'v world \<Rightarrow> (string \<times> 'v world) + 'v world" where
  "commit env w =
     (case commit_result env w of
        Some e \<Rightarrow> Inl (e, record_calls [Commit] w)
      | None \<Rightarrow>
          Inr (record_calls [Commit] (w\<lparr>committed := committed w @ pending w, pending := []\<rparr>)))"

text \<open>
  \<open>rolled_back\<close> is the world after a rollback that succeeded. A rollback that raises
  leaves the writes of the open transaction as they were.
\<close>

definition rolled_back :: "'v world \<Rightarrow> 'v world" where
  "rolled_back w = record_calls [Rollback] (w\<lparr>pending := []\<rparr>)"

definition rollback :: "'v env \<Rightarrow> 'v world \<Rightarrow> (string \<times> 'v world) + 'v world" where
  "rollback env w =
     (case rollback_result env w of
        Some e \<Rightarrow> Inl (e, record_calls [Rollback] w)
      | None \<Rightarrow> Inr (rolled_back w))"

text \<open>
  Python's \<open>str.lower\<close>, on the bytes of ASCII letters. The script only compares the
  result with \<open>'s'\<close>, and \<open>S\<close> is the only other character that lowercases to \<open>s\<close>.
\<close>

definition lower_char :: "char \<Rightarrow> char" where
  "lower_char c =
     (let n = (of_char c :: nat) in if 65 \<le> n \<and> n \<le> 90 then char_of (n + 32) else c)"

definition lower :: "string \<Rightarrow> string" where
  "lower s = map lower_char s"

subsection \<open>Batch transfer (lines 224 to 271)\<close>

definition batch_size :: nat where
  "batch_size = 1000"

text \<open>
  One write of a batch: \<open>executemany\<close> and then \<open>commit\<close>; either may raise.
\<close>

definition write_batch ::
  "'v env \<Rightarrow> statement \<Rightarrow> 'v batch \<Rightarrow> 'v world \<Rightarrow> (string \<times> 'v world) + 'v world" where
  "write_batch env q batch w =
     (case executemany env q batch w of
        Inl ew \<Rightarrow> Inl ew
      | Inr w1 \<Rightarrow> commit env w1)"

text \<open>
  The loop \<open>for row in source_cur\<close>, with its variables \<open>batch\<close> and \<open>rows_migrated\<close>. An
  exception leaves the loop with the value \<open>rows_migrated\<close> had when it was raised.
\<close>

fun copy_rows ::
  "'v env \<Rightarrow> statement \<Rightarrow> column list \<Rightarrow> 'v row list \<Rightarrow> 'v batch \<Rightarrow> nat \<Rightarrow> 'v world
     \<Rightarrow> (string \<times> nat \<times> 'v world) + ('v batch \<times> nat \<times> 'v world)" where
  "copy_rows env q cols [] batch n w = Inr (batch, n, w)"
| "copy_rows env q cols (row # rows) batch n w =
     (let batch1 = batch @ [map row cols] in
      if length batch1 \<ge> batch_size then
        (case write_batch env q batch1 w of
           Inl (e, w1) \<Rightarrow> Inl (e, n, w1)
         | Inr w1 \<Rightarrow> copy_rows env q cols rows [] (n + length batch1) w1)
      else copy_rows env q cols rows batch1 n w)"

text \<open>The body of the \<open>try\<close>: the select, the loop, and the last batch.\<close>

definition transfer ::
  "'v env \<Rightarrow> statement \<Rightarrow> string \<Rightarrow> string \<Rightarrow> column list \<Rightarrow> 'v world
     \<Rightarrow> (string \<times> nat \<times> 'v world) + (nat \<times> 'v world)" where
  "transfer env q source_schema table cols w =
     (case copy_rows env q cols (source_rows env source_schema table cols) [] 0
             (record_calls [Select source_schema table cols] w) of
        Inl x \<Rightarrow> Inl x
      | Inr (batch, n, w1) \<Rightarrow>
          if batch \<noteq> [] then
            (case write_batch env q batch w1 of
               Inl (e, w2) \<Rightarrow> Inl (e, n, w2)
             | Inr w2 \<Rightarrow> Inr (n + length batch, w2))
          else Inr (n, w1))"

subsection \<open>\<open>migrate_table\<close>\<close>

text \<open>
  \<open>Inr\<close> is the dictionary returned, \<open>Inl\<close> an exception that leaves the function: the
  one the rollback raises in the \<open>except\<close> handler, which nothing catches.
\<close>

definition migrate_table ::
  "'v env \<Rightarrow> string \<Rightarrow> string \<Rightarrow> string \<Rightarrow> 'v world
     \<Rightarrow> (string \<times> 'v world) + (result \<times> 'v world)" where
  "migrate_table env table source_schema target_schema w =
     (let w1 = record_calls [GetColumns Source source_schema table,
                             GetColumns Target target_schema table] w;
          cols = common_columns (COLUMN_MAPPING table)
                   (table_columns env Source source_schema table)
                   (table_columns env Target target_schema table)
      in
      if cols = [] then Inr (Skipped table reason_no_common_columns 0, w1)
      else
       (let w2 = record_calls [RowCount Source source_schema table,
                               RowCount Target target_schema table] w1;
            source_count = table_row_count env Source source_schema table;
            target_count = table_row_count env Target target_schema table
        in
        if source_count = 0 then Inr (Skipped table reason_source_empty 0, w2)
        else
         (let asked = (target_count > 0);
              w3 = (if asked then record_calls [Input (OverwriteTable table target_count)] w2
                    else w2)
          in
          if asked \<and> lower (input_response env (OverwriteTable table target_count)) \<noteq> ''s''
          then Inr (Skipped table reason_user_cancelled 0, w3)
          else
           (let w4 = record_calls [PkQuery target_schema table] w3;
                q = insert_query target_schema table
                      (pk_column (pk_result_rows env target_schema table)) cols
            in
            case transfer env q source_schema table cols w4 of
              Inl (e, n, w5) \<Rightarrow>
                (case rollback env w5 of
                   Inl x \<Rightarrow> Inl x
                 | Inr w6 \<Rightarrow> Inr (Error table e n, w6))
            | Inr (n, w5) \<Rightarrow> Inr (Success table n (length cols), w5)))))"

subsection \<open>Reading a run\<close>

text \<open>
  What one call added to the world: the writes it committed and the calls it made.
\<close>

definition new_committed :: "'v world \<Rightarrow> 'v world \<Rightarrow> 'v written list" where
  "new_committed w w' = drop (length (committed w)) (committed w')"

definition new_calls :: "'v world \<Rightarrow> 'v world \<Rightarrow> 'v event list" where
  "new_calls w w' = drop (length (trace w)) (trace w')"

text \<open>The world \<open>migrate_table\<close> leaves, whether it returns or raises.\<close>

definition world_after :: "(string \<times> 'v world) + (result \<times> 'v world) \<Rightarrow> 'v world" where
  "world_after x = (case x of Inl (e, w) \<Rightarrow> w | Inr (r, w) \<Rightarrow> w)"

text \<open>The calls that write to the target, and the number of rows a call sends.\<close>

fun is_target_write :: "'v event \<Rightarrow> bool" where
  "is_target_write (ExecuteMany _ _) = True"
| "is_target_write Commit = True"
| "is_target_write Rollback = True"
| "is_target_write _ = False"

definition target_writes :: "'v event list \<Rightarrow> 'v event list" where
  "target_writes es = filter is_target_write es"

fun rows_sent :: "'v event \<Rightarrow> nat" where
  "rows_sent (ExecuteMany _ batch) = length batch"
| "rows_sent _ = 0"

fun is_input :: "'v event \<Rightarrow> bool" where
  "is_input (Input _) = True"
| "is_input _ = False"

fun is_row_count :: "'v event \<Rightarrow> bool" where
  "is_row_count (RowCount _ _ _) = True"
| "is_row_count _ = False"

text \<open>The calls of writes that were each sent and committed, one after the other.\<close>

definition write_calls :: "'v written list \<Rightarrow> 'v event list" where
  "write_calls ws = concat (map (\<lambda>x. [ExecuteMany (sent_query x) (sent_batch x), Commit]) ws)"

definition full_batches :: "statement \<Rightarrow> 'v written list \<Rightarrow> bool" where
  "full_batches q ws =
     list_all (\<lambda>x. sent_query x = q \<and> length (sent_batch x) = batch_size) ws"

text \<open>
  The columns \<open>migrate_table\<close> reconciles for a table, the statement it builds for them,
  the value tuples it reads from the source cursor, and the calls it makes before the
  \<open>try\<close> block when it skips nothing.
\<close>

definition reconciled :: "'v env \<Rightarrow> string \<Rightarrow> string \<Rightarrow> string \<Rightarrow> column list" where
  "reconciled env table source_schema target_schema =
     common_columns (COLUMN_MAPPING table)
       (table_columns env Source source_schema table)
       (table_columns env Target target_schema table)"

definition built_query :: "'v env \<Rightarrow> string \<Rightarrow> string \<Rightarrow> string \<Rightarrow> statement" where
  "built_query env table source_schema target_schema =
     insert_query target_schema table (pk_column (pk_result_rows env target_schema table))
       (reconciled env table source_schema target_schema)"

definition source_values :: "'v env \<Rightarrow> string \<Rightarrow> string \<Rightarrow> string \<Rightarrow> 'v batch" where
  "source_values env table source_schema target_schema =
     map (\<lambda>row. map row (reconciled env table source_schema target_schema))
       (source_rows env source_schema table (reconciled env table source_schema target_schema))"

definition preflight_calls :: "'v env \<Rightarrow> string \<Rightarrow> string \<Rightarrow> string \<Rightarrow> 'v event list" where
  "preflight_calls env table source_schema target_schema =
     [GetColumns Source source_schema table, GetColumns Target target_schema table,
      RowCount Source source_schema table, RowCount Target target_schema table]
     @ (if table_row_count env Target target_schema table > 0
        then [Input (OverwriteTable table (table_row_count env Target target_schema table))]
        else [])
     @ [PkQuery target_schema table]"

text \<open>
  The \<open>try\<close> block of \<open>migrate_table\<close>, entered from the world \<open>w\<close> by a table that is
  not skipped.
\<close>

definition try_block ::
  "'v env \<Rightarrow> string \<Rightarrow> string \<Rightarrow> string \<Rightarrow> 'v world
     \<Rightarrow> (string \<times> nat \<times> 'v world) + (nat \<times> 'v world)" where
  "try_block env t ss ts w =
     transfer env (built_query env t ss ts) ss t (reconciled env t ss ts)
       (record_calls (preflight_calls env t ss ts) w)"

subsection \<open>\<open>main\<close>\<close>

text \<open>The dictionary written to the log file.\<close>

record report =
  timestamp :: string
  source_schema :: string
  target_schema :: string
  results :: "result list"
  total_rows_migrated :: nat

datatype outcome =
    ConnectionFailed
  | NoCommonTables
  | CancelledByUser
  | Aborted string
  | LogWritten report

text \<open>
  The loop over the tables. An exception that leaves \<open>migrate_table\<close> leaves the loop and
  \<open>main\<close>, whose \<open>try\<close> has a \<open>finally\<close> and no \<open>except\<close>: the run is \<open>Aborted\<close> and no log
  is written.
\<close>

fun migrate_tables ::
  "'v env \<Rightarrow> string list \<Rightarrow> 'v world \<Rightarrow> (string \<times> 'v world) + (result list \<times> 'v world)" where
  "migrate_tables env [] w = Inr ([], w)"
| "migrate_tables env (t # ts) w =
     (case migrate_table env t SOURCE_SCHEMA TARGET_SCHEMA w of
        Inl x \<Rightarrow> Inl x
      | Inr (r, w1) \<Rightarrow>
          (case migrate_tables env ts w1 of
             Inl x \<Rightarrow> Inl x
           | Inr (rs, w2) \<Rightarrow> Inr (r # rs, w2)))"

text \<open>
  The summary loop: \<open>total_rows\<close> grows in the \<open>'success'\<close> branch only. The three
  counters are printed, not written.
\<close>

fun total_rows :: "result list \<Rightarrow> nat" where
  "total_rows [] = 0"
| "total_rows (r # rs) =
     (if status r = ''success'' then rows_migrated r + total_rows rs else total_rows rs)"

definition tables_to_migrate :: "'v env \<Rightarrow> string list" where
  "tables_to_migrate env =
     filter (\<lambda>t. table_exists env Source SOURCE_SCHEMA t \<and> table_exists env Target TARGET_SCHEMA t)
       TABLES_TO_MIGRATE"

definition main :: "'v env \<Rightarrow> 'v world \<Rightarrow> outcome \<times> 'v world" where
  "main env w =
     (if \<not> (can_connect env Source \<and> can_connect env Target) then (ConnectionFailed, w)
      else if tables_to_migrate env = [] then (NoCommonTables, w)
      else
       (let w1 = record_calls [Input ContinueRun] w in
        if lower (input_response env ContinueRun) \<noteq> ''s'' then (CancelledByUser, w1)
        else
         (case migrate_tables env (tables_to_migrate env) w1 of
            Inl (e, w2) \<Rightarrow> (Aborted e, w2)
          | Inr (rs, w2) \<Rightarrow>
              (LogWritten \<lparr>timestamp = now_isoformat env,
                           source_schema = SOURCE_SCHEMA,
                           target_schema = TARGET_SCHEMA,
                           results = rs,
                           total_rows_migrated = total_rows rs\<rparr>, w2))))"

subsection \<open>Example runs\<close>

text \<open>
  Concrete environments, for the examples below. In \<open>demo_env\<close> the tables \<open>tokens\<close>
  (2500 rows) and \<open>pools\<close> (3 rows) exist on both sides, the targets are empty, and the
  target raises a type error on every write to \<open>tokens\<close> that follows a committed one.
\<close>

definition empty_world :: "nat world" where
  "empty_world = \<lparr>committed = [], pending = [], trace = []\<rparr>"

definition tokens_upsert :: statement where
  "tokens_upsert =
     OnConflictUpdate ''mig_topology'' ''tokens'' [''address'', ''symbol''] ''address'' [''symbol'']"

definition demo_env :: "nat env" where
  "demo_env =
     \<lparr>can_connect = (\<lambda>_. True),
      table_exists = (\<lambda>_ _ t. t = ''tokens'' \<or> t = ''pools''),
      table_columns = (\<lambda>s _ t.
         if t = ''tokens'' then
           (if s = Source then [''address'', ''symbol'', ''legacy_score'']
            else [''address'', ''symbol'', ''decimals''])
         else [''pool_address'', ''dex'']),
      table_row_count = (\<lambda>s _ t. if s = Source then (if t = ''tokens'' then 2500 else 3) else 0),
      input_response = (\<lambda>_. ''s''),
      pk_result_rows = (\<lambda>_ t. if t = ''tokens'' then [''address''] else [''pool_address'']),
      source_rows = (\<lambda>_ t _. if t = ''tokens'' then replicate 2500 (\<lambda>_. 7)
                               else replicate 3 (\<lambda>_. 7)),
      executemany_result = (\<lambda>w q b.
         if q = tokens_upsert \<and> committed w \<noteq> [] then Inl ''type error''
         else Inr (length b)),
      commit_result = (\<lambda>_. None),
      rollback_result = (\<lambda>_. None),
      now_isoformat = ''2024-01-01T00:00:00''\<rparr>"

text \<open>The same, with a target that accepts every write.\<close>

definition healthy_env :: "nat env" where
  "healthy_env = demo_env\<lparr>executemany_result := (\<lambda>w q b. Inr (length b))\<rparr>"

text \<open>
  The same, with no primary key on the target and a target that drops every row it is
  sent (each one conflicts): every \<open>rowcount\<close> is 0.
\<close>

definition conflict_env :: "nat env" where
  "conflict_env =
     demo_env\<lparr>pk_result_rows := (\<lambda>_ _. []), executemany_result := (\<lambda>w q b. Inr 0)\<rparr>"

text \<open>
  An environment of skipped tables: \<open>audit_log\<close> and \<open>dex_state\<close> have no column in
  common, \<open>tokens\<close> and \<open>dex_state\<close> are empty in the source, every target table holds
  4 rows, and the operator answers \<open>n\<close>.
\<close>

definition skip_env :: "nat env" where
  "skip_env =
     demo_env\<lparr>table_columns := (\<lambda>s _ t.
                  if t = ''audit_log'' \<or> t = ''dex_state''
                  then (if s = Source then [''id''] else [''event_id''])
                  else [''address'']),
               table_row_count := (\<lambda>s _ t.
                  if s = Source then (if t = ''tokens'' \<or> t = ''dex_state'' then 0 else 5)
                  else 4),
               input_response := (\<lambda>_. ''n'')\<rparr>"

text \<open>The world after \<open>tokens\<close> has been migrated in \<open>healthy_env\<close>.\<close>

definition tokens_committed :: "nat world" where
  "tokens_committed =
     \<lparr>committed = [\<lparr>sent_query = tokens_upsert, sent_batch = replicate 1000 [7, 7], rowcount = 1000\<rparr>,
                   \<lparr>sent_query = tokens_upsert, sent_batch = replicate 1000 [7, 7], rowcount = 1000\<rparr>,
                   \<lparr>sent_query = tokens_upsert, sent_batch = replicate 500 [7, 7], rowcount = 500\<rparr>],
      pending = [],
      trace = [GetColumns Source ''arbitrage'' ''tokens'',
               GetColumns Target ''mig_topology'' ''tokens'',
               RowCount Source ''arbitrage'' ''tokens'',
               RowCount Target ''mig_topology'' ''tokens'',
               PkQuery ''mig_topology'' ''tokens'',
               Select ''arbitrage'' ''tokens'' [''address'', ''symbol''],
               ExecuteMany tokens_upsert (replicate 1000 [7, 7]), Commit,
               ExecuteMany tokens_upsert (replicate 1000 [7, 7]), Commit,
               ExecuteMany tokens_upsert (replicate 500 [7, 7]), Commit]\<rparr>"

text \<open>The statement and the world after \<open>tokens\<close> has been migrated in \<open>conflict_env\<close>.\<close>

definition tokens_skip_insert :: statement where
  "tokens_skip_insert = OnConflictNothing ''mig_topology'' ''tokens'' [''address'', ''symbol'']"

definition tokens_dropped :: "nat world" where
  "tokens_dropped =
     \<lparr>committed = [\<lparr>sent_query = tokens_skip_insert, sent_batch = replicate 1000 [7, 7], rowcount = 0\<rparr>,
                   \<lparr>sent_query = tokens_skip_insert, sent_batch = replicate 1000 [7, 7], rowcount = 0\<rparr>,
                   \<lparr>sent_query = tokens_skip_insert, sent_batch = replicate 500 [7, 7], rowcount = 0\<rparr>],
      pending = [],
      trace = [GetColumns Source ''arbitrage'' ''tokens'',
               GetColumns Target ''mig_topology'' ''tokens'',
               RowCount Source ''arbitrage'' ''tokens'',
               RowCount Target ''mig_topology'' ''tokens'',
               PkQuery ''mig_topology'' ''tokens'',
               Select ''arbitrage'' ''tokens'' [''address'', ''symbol''],
               ExecuteMany tokens_skip_insert (replicate 1000 [7, 7]), Commit,
               ExecuteMany tokens_skip_insert (replicate 1000 [7, 7]), Commit,
               ExecuteMany tokens_skip_insert (replicate 500 [7, 7]), Commit]\<rparr>"

text \<open>
  The world after \<open>tokens\<close> has failed on its second batch in \<open>demo_env\<close>, and the world
  after \<open>pools\<close> has then been migrated.
\<close>

definition tokens_failed :: "nat world" where
  "tokens_failed =
     \<lparr>committed = [\<lparr>sent_query = tokens_upsert, sent_batch = replicate 1000 [7, 7], rowcount = 1000\<rparr>],
      pending = [],
      trace = [GetColumns Source ''arbitrage'' ''tokens'',
               GetColumns Target ''mig_topology'' ''tokens'',
               RowCount Source ''arbitrage'' ''tokens'',
               RowCount Target ''mig_topology'' ''tokens'',
               PkQuery ''mig_topology'' ''tokens'',
               Select ''arbitrage'' ''tokens'' [''address'', ''symbol''],
               ExecuteMany tokens_upsert (replicate 1000 [7, 7]), Commit,
               ExecuteMany tokens_upsert (replicate 1000 [7, 7]),
               Rollback]\<rparr>"


definition pools_upsert :: statement where
  "pools_upsert =
     OnConflictUpdate ''mig_topology'' ''pools'' [''pool_address'', ''dex''] ''pool_address'' [''dex'']"

definition pools_calls :: "nat event list" where
  "pools_calls =
     [GetColumns Source ''arbitrage'' ''pools'',
      GetColumns Target ''mig_topology'' ''pools'',
      RowCount Source ''arbitrage'' ''pools'',
      RowCount Target ''mig_topology'' ''pools'',
      PkQuery ''mig_topology'' ''pools'',
      Select ''arbitrage'' ''pools'' [''pool_address'', ''dex''],
      ExecuteMany pools_upsert (replicate 3 [7, 7]), Commit]"

definition pools_after_tokens_failed :: "nat world" where
  "pools_after_tokens_failed =
     \<lparr>committed = committed tokens_failed
                   @ [\<lparr>sent_query = pools_upsert, sent_batch = replicate 3 [7, 7], rowcount = 3\<rparr>],
      pending = [],
      trace = trace tokens_failed @ pools_calls\<rparr>"



text \<open>The report and the world at the end of the run of \<open>main\<close> in \<open>demo_env\<close>.\<close>

definition demo_report :: report where
  "demo_report =
     \<lparr>timestamp = ''2024-01-01T00:00:00'',
      source_schema = ''arbitrage'',
      target_schema = ''mig_topology'',
      results = [Error ''tokens'' ''type error'' 1000, Success ''pools'' 3 2],
      total_rows_migrated = 3\<rparr>"

definition demo_finished :: "nat world" where
  "demo_finished =
     \<lparr>committed = committed pools_after_tokens_failed,
      pending = [],
      trace = Input ContinueRun # trace pools_after_tokens_failed\<rparr>"

section \<open>The batch loop\<close>

text \<open>
  What a write, the loop and the whole \<open>try\<close> block leave in the world, when they return
  and when they raise. The loop is entered with no write pending and a batch below the
  batch size; both hold again whenever it comes back to its head.
\<close>

lemma batch_size_pos: "0 < batch_size" by (simp add: batch_size_def)

lemma record_calls_twice: "record_calls es2 (record_calls es1 w) = record_calls (es1 @ es2) w"
  by (simp add: record_calls_def)

lemma record_calls_simps [simp]:
  "committed (record_calls es w) = committed w"
  "pending (record_calls es w) = pending w"
  "trace (record_calls es w) = trace w @ es"
  by (simp_all add: record_calls_def)

lemma write_batch_Inr:
  assumes "write_batch env q b w = Inr w'"
  shows "\<exists>rc. committed w' = committed w @ pending w @ [\<lparr>sent_query = q, sent_batch = b, rowcount = rc\<rparr>]
           \<and> pending w' = []
           \<and> trace w' = trace w @ [ExecuteMany q b, Commit]"
  using assms
  by (auto simp: write_batch_def executemany_def commit_def record_calls_def
      split: sum.splits option.splits)

lemma write_batch_Inl:
  assumes "write_batch env q b w = Inl (e, w')"
  shows "committed w' = committed w
         \<and> (trace w' = trace w @ [ExecuteMany q b] \<and> pending w' = pending w
            \<or> (\<exists>rc. trace w' = trace w @ [ExecuteMany q b, Commit]
                  \<and> pending w' = pending w @ [\<lparr>sent_query = q, sent_batch = b, rowcount = rc\<rparr>]))"
  using assms
  by (auto simp: write_batch_def executemany_def commit_def record_calls_def
      split: sum.splits option.splits)

lemma copy_rows_Inr:
  assumes "copy_rows env q cols rows batch n w = Inr (batch', n', w')"
    and "pending w = []" and "length batch < batch_size"
  shows "\<exists>ws. committed w' = committed w @ ws \<and> pending w' = []
           \<and> full_batches q ws
           \<and> concat (map sent_batch ws) @ batch' = batch @ map (\<lambda>r. map r cols) rows
           \<and> length batch' < batch_size
           \<and> n' = n + length (concat (map sent_batch ws))
           \<and> trace w' = trace w @ write_calls ws"
  using assms
proof (induction rows arbitrary: batch n w)
  case Nil
  then show ?case by (simp add: full_batches_def write_calls_def)
next
  case (Cons row rows)
  let ?b1 = "batch @ [map row cols]"
  show ?case
  proof (cases "batch_size \<le> length ?b1")
    case False
    with Cons.prems have "copy_rows env q cols rows ?b1 n w = Inr (batch', n', w')"
      by simp
    from Cons.IH[OF this Cons.prems(2)] False show ?thesis by auto
  next
    case True
    with Cons.prems obtain w1 where w1: "write_batch env q ?b1 w = Inr w1"
      and rest: "copy_rows env q cols rows [] (n + length ?b1) w1 = Inr (batch', n', w')"
      by (auto simp: Let_def split: sum.splits)
    from write_batch_Inr[OF w1] Cons.prems(2) obtain rc where
      c1: "committed w1 = committed w @ [\<lparr>sent_query = q, sent_batch = ?b1, rowcount = rc\<rparr>]"
      and p1: "pending w1 = []"
      and t1: "trace w1 = trace w @ [ExecuteMany q ?b1, Commit]" by auto
    from True Cons.prems(3) have len: "length ?b1 = batch_size" by simp
    have e: "length ([] :: 'a batch) < batch_size" using batch_size_pos by simp
    from Cons.IH[OF rest p1 e] obtain ws where
      ws: "committed w' = committed w1 @ ws" "pending w' = []"
          "full_batches q ws"
          "concat (map sent_batch ws) @ batch' = [] @ map (\<lambda>r. map r cols) rows"
          "length batch' < batch_size"
          "n' = (n + length ?b1) + length (concat (map sent_batch ws))"
          "trace w' = trace w1 @ write_calls ws"
      by blast
    show ?thesis
      apply (rule exI[of _ "\<lparr>sent_query = q, sent_batch = ?b1, rowcount = rc\<rparr> # ws"])
      using ws c1 t1 len by (simp add: full_batches_def write_calls_def)
  qed
qed

lemma copy_rows_Inl:
  assumes "copy_rows env q cols rows batch n w = Inl (e, n', w')"
    and "pending w = []" and "length batch < batch_size"
  shows "\<exists>ws b rest. committed w' = committed w @ ws
           \<and> full_batches q ws
           \<and> concat (map sent_batch ws) @ b @ rest = batch @ map (\<lambda>r. map r cols) rows
           \<and> length b = batch_size
           \<and> n' = n + length (concat (map sent_batch ws))
           \<and> (trace w' = trace w @ write_calls ws @ [ExecuteMany q b] \<and> pending w' = []
              \<or> (\<exists>rc. trace w' = trace w @ write_calls ws @ [ExecuteMany q b, Commit]
                    \<and> pending w' = [\<lparr>sent_query = q, sent_batch = b, rowcount = rc\<rparr>]))"
  using assms
proof (induction rows arbitrary: batch n w)
  case Nil
  then show ?case by simp
next
  case (Cons row rows)
  let ?b1 = "batch @ [map row cols]"
  show ?case
  proof (cases "batch_size \<le> length ?b1")
    case False
    with Cons.prems have "copy_rows env q cols rows ?b1 n w = Inl (e, n', w')"
      by simp
    from Cons.IH[OF this Cons.prems(2)] False show ?thesis by auto
  next
    case True
    from True Cons.prems(3) have len: "length ?b1 = batch_size" by simp
    show ?thesis
    proof (cases "write_batch env q ?b1 w")
      case (Inl x)
      with True Cons.prems(1) have x: "x = (e, w')" and n': "n' = n"
        by (auto simp: Let_def split: prod.splits)
      from write_batch_Inl[OF Inl[unfolded x]] Cons.prems(2)
      have "committed w' = committed w
         \<and> (trace w' = trace w @ [ExecuteMany q ?b1] \<and> pending w' = []
            \<or> (\<exists>rc. trace w' = trace w @ [ExecuteMany q ?b1, Commit]
                  \<and> pending w' = [\<lparr>sent_query = q, sent_batch = ?b1, rowcount = rc\<rparr>]))"
        by simp
      then show ?thesis
        apply (rule_tac x = "[]" in exI)
        apply (rule_tac x = "?b1" in exI)
        apply (rule_tac x = "map (\<lambda>r. map r cols) rows" in exI)
        using len n' by (auto simp add: full_batches_def write_calls_def)
    next
      case (Inr w1)
      with True Cons.prems(1)
      have rest: "copy_rows env q cols rows [] (n + length ?b1) w1 = Inl (e, n', w')"
        by (simp add: Let_def)
      from write_batch_Inr[OF Inr] Cons.prems(2) obtain rc where
        c1: "committed w1 = committed w @ [\<lparr>sent_query = q, sent_batch = ?b1, rowcount = rc\<rparr>]"
        and p1: "pending w1 = []"
        and t1: "trace w1 = trace w @ [ExecuteMany q ?b1, Commit]" by auto
      have e: "length ([] :: 'a batch) < batch_size" using batch_size_pos by simp
      from Cons.IH[OF rest p1 e] obtain ws b rest where
        ws: "committed w' = committed w1 @ ws"
          "full_batches q ws"
          "concat (map sent_batch ws) @ b @ rest = [] @ map (\<lambda>r. map r cols) rows"
          "length b = batch_size"
          "n' = (n + length ?b1) + length (concat (map sent_batch ws))"
          "(trace w' = trace w1 @ write_calls ws @ [ExecuteMany q b] \<and> pending w' = []
              \<or> (\<exists>rc. trace w' = trace w1 @ write_calls ws @ [ExecuteMany q b, Commit]
                    \<and> pending w' = [\<lparr>sent_query = q, sent_batch = b, rowcount = rc\<rparr>]))"
        by blast
      show ?thesis
        apply (rule_tac x = "\<lparr>sent_query = q, sent_batch = ?b1, rowcount = rc\<rparr> # ws" in exI)
        apply (rule_tac x = b in exI)
        apply (rule_tac x = rest in exI)
        using ws c1 t1 len by (auto simp add: full_batches_def write_calls_def)
    qed
  qed
qed

lemma full_batches_length:
  "full_batches q ws \<Longrightarrow> length (concat (map sent_batch ws)) = batch_size * length ws"
  by (induction ws) (auto simp: full_batches_def)

lemma transfer_Inr:
  assumes "transfer env q ss t cols w = Inr (n, w')" and "pending w = []"
  shows "\<exists>ws. committed w' = committed w @ ws \<and> pending w' = []
           \<and> list_all (\<lambda>x. sent_query x = q) ws
           \<and> concat (map sent_batch ws) = map (\<lambda>r. map r cols) (source_rows env ss t cols)
           \<and> n = length (source_rows env ss t cols)
           \<and> full_batches q (butlast ws)
           \<and> (ws = [] \<or> 0 < length (sent_batch (last ws)) \<and> length (sent_batch (last ws)) \<le> batch_size)
           \<and> trace w' = trace w @ Select ss t cols # write_calls ws"
proof -
  let ?w0 = "record_calls [Select ss t cols] w"
  let ?vals = "map (\<lambda>r. map r cols) (source_rows env ss t cols)"
  from assms(1) obtain batch n1 w1 where
    loop: "copy_rows env q cols (source_rows env ss t cols) [] 0 ?w0 = Inr (batch, n1, w1)"
    by (auto simp: transfer_def split: sum.splits)
  have p0: "pending ?w0 = []" using assms(2) by (simp add: record_calls_def)
  have e: "length ([] :: 'a batch) < batch_size" using batch_size_pos by simp
  from copy_rows_Inr[OF loop p0 e] obtain ws where
    ws: "committed w1 = committed ?w0 @ ws" "pending w1 = []" "full_batches q ws"
        "concat (map sent_batch ws) @ batch = [] @ ?vals"
        "length batch < batch_size"
        "n1 = 0 + length (concat (map sent_batch ws))"
        "trace w1 = trace ?w0 @ write_calls ws"
    by blast
  have len: "length ?vals = length (source_rows env ss t cols)" by simp
  show ?thesis
  proof (cases "batch = []")
    case True
    with assms(1) loop have "n = n1" "w' = w1" by (auto simp: transfer_def)
    moreover have "full_batches q (butlast ws)"
      using ws(3) by (auto simp: full_batches_def list_all_iff dest: in_set_butlastD)
    moreover have "ws = [] \<or> 0 < length (sent_batch (last ws)) \<and> length (sent_batch (last ws)) \<le> batch_size"
      using ws(3) batch_size_pos by (cases ws rule: rev_cases) (auto simp: full_batches_def)
    moreover have "list_all (\<lambda>x. sent_query x = q) ws"
      using ws(3) by (auto simp: full_batches_def list_all_iff)
    moreover have "length (concat (map sent_batch ws)) = length (source_rows env ss t cols)"
      using ws(4) True len by (metis append_Nil append_Nil2)
    ultimately show ?thesis
      using ws True by (intro exI[of _ ws]) (simp add: record_calls_def)
  next
    case False
    with assms(1) loop obtain w2 where
      w2: "write_batch env q batch w1 = Inr w2" and r: "n = n1 + length batch" "w' = w2"
      by (auto simp: transfer_def split: sum.splits)
    from write_batch_Inr[OF w2] ws(2) obtain rc where
      c2: "committed w2 = committed w1 @ [\<lparr>sent_query = q, sent_batch = batch, rowcount = rc\<rparr>]"
      and p2: "pending w2 = []"
      and t2: "trace w2 = trace w1 @ [ExecuteMany q batch, Commit]" by auto
    let ?ws = "ws @ [\<lparr>sent_query = q, sent_batch = batch, rowcount = rc\<rparr>]"
    have "list_all (\<lambda>x. sent_query x = q) ?ws"
      using ws(3) by (auto simp: full_batches_def list_all_iff)
    moreover have "length (concat (map sent_batch ws)) + length batch = length (source_rows env ss t cols)"
      using ws(4) len by (metis append_Nil length_append)
    ultimately show ?thesis
      using ws False r c2 p2 t2
      by (intro exI[of _ ?ws]) (simp add: record_calls_def write_calls_def)
  qed
qed

lemma transfer_Inl:
  assumes "transfer env q ss t cols w = Inl (e, n, w')" and "pending w = []"
  shows "\<exists>ws. committed w' = committed w @ ws
           \<and> full_batches q ws
           \<and> concat (map sent_batch ws) = take n (map (\<lambda>r. map r cols) (source_rows env ss t cols))
           \<and> n = length (concat (map sent_batch ws))
           \<and> n < length (source_rows env ss t cols)
           \<and> (trace w' = trace w @ Select ss t cols # write_calls ws
                  @ [ExecuteMany q (take batch_size (drop n (map (\<lambda>r. map r cols) (source_rows env ss t cols))))]
                \<and> pending w' = []
              \<or> (\<exists>rc. trace w' = trace w @ Select ss t cols # write_calls ws
                  @ [ExecuteMany q (take batch_size (drop n (map (\<lambda>r. map r cols) (source_rows env ss t cols)))), Commit]
                \<and> pending w' = [\<lparr>sent_query = q,
                      sent_batch = take batch_size (drop n (map (\<lambda>r. map r cols) (source_rows env ss t cols))),
                      rowcount = rc\<rparr>]))"
proof -
  let ?w0 = "record_calls [Select ss t cols] w"
  let ?vals = "map (\<lambda>r. map r cols) (source_rows env ss t cols)"
  have p0: "pending ?w0 = []" using assms(2) by (simp add: record_calls_def)
  have e0: "length ([] :: 'a batch) < batch_size" using batch_size_pos by simp
  have len: "length ?vals = length (source_rows env ss t cols)" by simp
  show ?thesis
  proof (cases "copy_rows env q cols (source_rows env ss t cols) [] 0 ?w0")
    case (Inl x)
    with assms(1) have loop:
      "copy_rows env q cols (source_rows env ss t cols) [] 0 ?w0 = Inl (e, n, w')"
      by (simp add: transfer_def)
    from copy_rows_Inl[OF loop p0 e0] obtain ws b rest where
      ws: "committed w' = committed ?w0 @ ws" "full_batches q ws"
          "concat (map sent_batch ws) @ b @ rest = [] @ ?vals"
          "length b = batch_size"
          "n = 0 + length (concat (map sent_batch ws))"
          "(trace w' = trace ?w0 @ write_calls ws @ [ExecuteMany q b] \<and> pending w' = []
              \<or> (\<exists>rc. trace w' = trace ?w0 @ write_calls ws @ [ExecuteMany q b, Commit]
                    \<and> pending w' = [\<lparr>sent_query = q, sent_batch = b, rowcount = rc\<rparr>]))"
      by blast
    have v: "?vals = concat (map sent_batch ws) @ b @ rest" using ws(3) by simp
    have tk: "take n ?vals = concat (map sent_batch ws)"
      unfolding v using ws(5) by simp
    have dr: "take batch_size (drop n ?vals) = b"
      unfolding v using ws(5) ws(4) by simp
    have lt: "n < length (source_rows env ss t cols)"
      using arg_cong[OF v, of length] ws(4) ws(5) batch_size_pos by simp
    show ?thesis
      apply (rule exI[of _ ws])
      using ws(1,2,5,6) tk lt unfolding dr by (auto simp: record_calls_def)
  next
    case (Inr y)
    then obtain batch n1 w1 where
      loop: "copy_rows env q cols (source_rows env ss t cols) [] 0 ?w0 = Inr (batch, n1, w1)"
      by (cases y) auto
    from copy_rows_Inr[OF loop p0 e0] obtain ws where
      ws: "committed w1 = committed ?w0 @ ws" "pending w1 = []" "full_batches q ws"
        "concat (map sent_batch ws) @ batch = [] @ ?vals"
        "length batch < batch_size"
        "n1 = 0 + length (concat (map sent_batch ws))"
        "trace w1 = trace ?w0 @ write_calls ws"
      by blast
    from assms(1) loop have ne: "batch \<noteq> []" and
      wb: "write_batch env q batch w1 = Inl (e, w')" and n: "n = n1"
      by (auto simp: transfer_def split: if_splits sum.splits)
    have v: "?vals = concat (map sent_batch ws) @ batch" using ws(4) by simp
    have tk: "take n ?vals = concat (map sent_batch ws)"
      unfolding v using ws(6) n by simp
    have dr: "take batch_size (drop n ?vals) = batch"
      unfolding v using ws(6) ws(5) n by simp
    have lt: "n < length (source_rows env ss t cols)"
      using arg_cong[OF v, of length] ws(6) n ne by simp
    from write_batch_Inl[OF wb] ws(2)
    have "committed w' = committed w1
         \<and> (trace w' = trace w1 @ [ExecuteMany q batch] \<and> pending w' = []
            \<or> (\<exists>rc. trace w' = trace w1 @ [ExecuteMany q batch, Commit]
                  \<and> pending w' = [\<lparr>sent_query = q, sent_batch = batch, rowcount = rc\<rparr>]))"
      by simp
    then show ?thesis
      apply (intro exI[of _ ws])
      using ws(1,3,6,7) n tk lt unfolding dr by (auto simp: record_calls_def)
  qed
qed

section \<open>One table, and the tables of a run\<close>

text \<open>
  \<open>migrate_table\<close> by its result, and what a success and an error leave in the world.
\<close>

lemma migrate_table_Success:
  assumes "migrate_table env t ss ts w = Inr (Success t' n c, w')"
  shows "t' = t \<and> c = length (reconciled env t ss ts) \<and> reconciled env t ss ts \<noteq> []
         \<and> 0 < table_row_count env Source ss t
         \<and> transfer env (built_query env t ss ts) ss t (reconciled env t ss ts)
              (record_calls (preflight_calls env t ss ts) w) = Inr (n, w')"
  using assms
  by (auto simp: migrate_table_def Let_def reconciled_def built_query_def preflight_calls_def
                 record_calls_twice
           split: if_splits sum.splits prod.splits)

lemma rollback_Inr: "rollback env w = Inr w' \<Longrightarrow> rollback_result env w = None \<and> w' = rolled_back w"
  by (simp add: rollback_def split: option.splits)

lemma rollback_Inl:
  "rollback env w = Inl (e, w') \<Longrightarrow>
     rollback_result env w = Some e \<and> w' = record_calls [Rollback] w"
  by (simp add: rollback_def split: option.splits)

lemma migrate_table_Error:
  assumes "migrate_table env t ss ts w = Inr (Error t' e n, w')"
  shows "t' = t \<and> reconciled env t ss ts \<noteq> []
         \<and> 0 < table_row_count env Source ss t
         \<and> (\<exists>w5. transfer env (built_query env t ss ts) ss t (reconciled env t ss ts)
              (record_calls (preflight_calls env t ss ts) w) = Inl (e, n, w5)
              \<and> rollback_result env w5 = None \<and> w' = rolled_back w5)"
  using assms
  by (auto simp: migrate_table_def Let_def reconciled_def built_query_def preflight_calls_def
                 record_calls_twice
           split: if_splits sum.splits prod.splits dest: rollback_Inr)

lemma migrate_table_table_name:
  "migrate_table env t ss ts w = Inr (r, w') \<Longrightarrow> table_name r = t"
  by (auto simp: migrate_table_def Let_def split: if_splits sum.splits prod.splits)

lemma migrate_table_try_block:
  assumes "reconciled env t ss ts \<noteq> []"
    and "0 < table_row_count env Source ss t"
    and "table_row_count env Target ts t = 0
         \<or> lower (input_response env (OverwriteTable t (table_row_count env Target ts t))) = ''s''"
  shows "migrate_table env t ss ts w =
     (case try_block env t ss ts w of
        Inl (e, n, w5) \<Rightarrow>
          (case rollback env w5 of
             Inl x \<Rightarrow> Inl x
           | Inr w6 \<Rightarrow> Inr (Error t e n, w6))
      | Inr (n, w5) \<Rightarrow> Inr (Success t n (length (reconciled env t ss ts)), w5))"
  using assms
  by (auto simp: migrate_table_def try_block_def Let_def reconciled_def built_query_def
                 preflight_calls_def record_calls_twice
           split: sum.splits prod.splits)

lemma migrate_tables_table_names:
  "migrate_tables env ts w = Inr (rs, w') \<Longrightarrow> map table_name rs = ts"
proof (induction ts arbitrary: w rs)
  case Nil
  then show ?case by simp
next
  case (Cons t ts)
  from Cons.prems obtain r w1 rs1 where
    m: "migrate_table env t SOURCE_SCHEMA TARGET_SCHEMA w = Inr (r, w1)"
    and rest: "migrate_tables env ts w1 = Inr (rs1, w')" and rs: "rs = r # rs1"
    by (auto split: sum.splits)
  from migrate_table_table_name[OF m] Cons.IH[OF rest] rs show ?case by simp
qed

lemma total_rows_successes:
  "total_rows rs = sum_list (map rows_migrated (filter (\<lambda>r. status r = ''success'') rs))"
  by (induction rs) simp_all

lemma new_committed_append: "committed w' = committed w @ ws \<Longrightarrow> new_committed w w' = ws"
  by (simp add: new_committed_def)

lemma new_calls_append: "trace w' = trace w @ es \<Longrightarrow> new_calls w w' = es"
  by (simp add: new_calls_def)

lemma target_writes_write_calls: "target_writes (write_calls ws) = write_calls ws"
  by (induction ws) (simp_all add: target_writes_def write_calls_def)

lemma target_writes_preflight: "target_writes (preflight_calls env t ss ts) = []"
  by (simp add: target_writes_def preflight_calls_def)

lemma rows_sent_write_calls:
  "sum_list (map rows_sent (write_calls ws)) = length (concat (map sent_batch ws))"
  by (induction ws) (simp_all add: write_calls_def)

lemma rows_sent_preflight: "sum_list (map rows_sent (preflight_calls env t ss ts)) = 0"
  by (simp add: preflight_calls_def)

lemma ceil_div_batches:
  assumes "0 < B" and "0 < l" and "l \<le> B"
  shows "(B * k + l + B - 1) div B = Suc k"
proof -
  have "B * k + l + B - 1 = (l - 1) + Suc k * B"
    using assms by (cases l) (simp_all add: algebra_simps)
  moreover have "((l - 1) + Suc k * B) div B = Suc k"
  proof -
    have "l - 1 < B" using assms by simp
    then have "(l - 1) div B = 0" by simp
    moreover have "(l - 1 + Suc k * B) div B = Suc k + (l - 1) div B"
      using assms(1) by (intro div_mult_self1) simp
    ultimately show ?thesis by simp
  qed
  ultimately show ?thesis by simp
qed

lemma success_writes:
  assumes "pending w = []"
    and "migrate_table env t ss ts w = Inr (Success t' n c, w')"
  shows "\<exists>ws. committed w' = committed w @ ws \<and> pending w' = []
           \<and> list_all (\<lambda>x. sent_query x = built_query env t ss ts) ws
           \<and> concat (map sent_batch ws) = source_values env t ss ts
           \<and> n = length (source_values env t ss ts)
           \<and> full_batches (built_query env t ss ts) (butlast ws)
           \<and> (ws = [] \<or> 0 < length (sent_batch (last ws)) \<and> length (sent_batch (last ws)) \<le> batch_size)
           \<and> trace w' = trace w @ preflight_calls env t ss ts
                 @ Select ss t (reconciled env t ss ts) # write_calls ws"
proof -
  from migrate_table_Success[OF assms(2)]
  have tr: "transfer env (built_query env t ss ts) ss t (reconciled env t ss ts)
              (record_calls (preflight_calls env t ss ts) w) = Inr (n, w')" by simp
  have p: "pending (record_calls (preflight_calls env t ss ts) w) = []"
    using assms(1) by simp
  from transfer_Inr[OF tr p] show ?thesis
    by (simp add: source_values_def)
qed

lemma error_writes:
  assumes "pending w = []"
    and "migrate_table env t ss ts w = Inr (Error t' e n, w')"
  shows "\<exists>ws. committed w' = committed w @ ws \<and> pending w' = []
           \<and> full_batches (built_query env t ss ts) ws
           \<and> concat (map sent_batch ws) = take n (source_values env t ss ts)
           \<and> n = length (concat (map sent_batch ws))
           \<and> n < length (source_values env t ss ts)
           \<and> (trace w' = trace w @ preflight_calls env t ss ts
                  @ Select ss t (reconciled env t ss ts) # write_calls ws
                  @ [ExecuteMany (built_query env t ss ts)
                       (take batch_size (drop n (source_values env t ss ts))), Rollback]
              \<or> trace w' = trace w @ preflight_calls env t ss ts
                  @ Select ss t (reconciled env t ss ts) # write_calls ws
                  @ [ExecuteMany (built_query env t ss ts)
                       (take batch_size (drop n (source_values env t ss ts))), Commit, Rollback])"
proof -
  from migrate_table_Error[OF assms(2)] obtain w5 where
    tr: "transfer env (built_query env t ss ts) ss t (reconciled env t ss ts)
              (record_calls (preflight_calls env t ss ts) w) = Inl (e, n, w5)"
    and w': "w' = rolled_back w5" by blast
  have p: "pending (record_calls (preflight_calls env t ss ts) w) = []"
    using assms(1) by simp
  from transfer_Inl[OF tr p] show ?thesis
    unfolding w' source_values_def
    by (auto simp: rolled_back_def)
qed


text \<open>
  No write is pending between two tables: a table entered with none pending leaves none
  pending, whatever its result.
\<close>

lemma migrate_table_pending:
  assumes "pending w = []" and "migrate_table env t ss ts w = Inr (r, w')"
  shows "pending w' = []"
proof (cases r)
  case (Success t' n c)
  from success_writes[OF assms(1) assms(2)[unfolded Success]] show ?thesis by blast
next
  case (Error t' e n)
  from error_writes[OF assms(1) assms(2)[unfolded Error]] show ?thesis by blast
next
  case (Skipped t' x n)
  with assms show ?thesis
    by (auto simp: migrate_table_def Let_def split: if_splits sum.splits prod.splits)
qed

lemma migrate_tables_pending:
  "pending w = [] \<Longrightarrow> migrate_tables env tables w = Inr (rs, w') \<Longrightarrow> pending w' = []"
proof (induction tables arbitrary: w rs)
  case Nil
  then show ?case by simp
next
  case (Cons t tables)
  from Cons.prems(2) obtain r w1 rs1 where
    m: "migrate_table env t SOURCE_SCHEMA TARGET_SCHEMA w = Inr (r, w1)"
    and rest: "migrate_tables env tables w1 = Inr (rs1, w')"
    by (auto split: sum.splits)
  from migrate_table_pending[OF Cons.prems(1) m] have "pending w1 = []" .
  from Cons.IH[OF this rest] show ?case .
qed

section \<open>The calls of a table that is not skipped\<close>

text \<open>
  Whatever the outcome of the \<open>try\<close> block, the calls made before it are the first calls
  the table adds to the trace.
\<close>

lemma write_batch_trace:
  "write_batch env q b w = Inl (e, w') \<Longrightarrow> \<exists>es. trace w' = trace w @ es"
  "write_batch env q b w = Inr w' \<Longrightarrow> \<exists>es. trace w' = trace w @ es"
  by (auto simp: write_batch_def executemany_def commit_def record_calls_def
      split: sum.splits option.splits)

lemma copy_rows_trace:
  "copy_rows env q cols rows batch n w = Inl (e, n', w') \<Longrightarrow> \<exists>es. trace w' = trace w @ es"
  "copy_rows env q cols rows batch n w = Inr (batch', n', w') \<Longrightarrow> \<exists>es. trace w' = trace w @ es"
proof (induction rows arbitrary: batch n w)
  case Nil
  { case 1 then show ?case by simp }
  { case 2 then show ?case by simp }
next
  case (Cons row rows)
  { case 1
    show ?case
    proof (cases "batch_size \<le> length (batch @ [map row cols])")
      case False
      with 1 show ?thesis using Cons.IH(1) by simp
    next
      case True
      show ?thesis
      proof (cases "write_batch env q (batch @ [map row cols]) w")
        case (Inl x)
        with True 1 have "write_batch env q (batch @ [map row cols]) w = Inl (e, w')"
          by (auto simp: Let_def split: prod.splits)
        then show ?thesis by (rule write_batch_trace(1))
      next
        case (Inr w1)
        from write_batch_trace(2)[OF Inr] obtain es1 where e1: "trace w1 = trace w @ es1" ..
        from True 1 Inr
        have "copy_rows env q cols rows [] (n + length (batch @ [map row cols])) w1 = Inl (e, n', w')"
          by (simp add: Let_def)
        from Cons.IH(1)[OF this] obtain es2 where "trace w' = trace w1 @ es2" ..
        with e1 show ?thesis by simp
      qed
    qed }
  { case 2
    show ?case
    proof (cases "batch_size \<le> length (batch @ [map row cols])")
      case False
      with 2 show ?thesis using Cons.IH(2) by simp
    next
      case True
      with 2 obtain w1 where w1: "write_batch env q (batch @ [map row cols]) w = Inr w1"
        and rest: "copy_rows env q cols rows [] (n + length (batch @ [map row cols])) w1
                     = Inr (batch', n', w')"
        by (auto simp: Let_def split: sum.splits)
      from write_batch_trace(2)[OF w1] obtain es1 where e1: "trace w1 = trace w @ es1" ..
      from Cons.IH(2)[OF rest] obtain es2 where "trace w' = trace w1 @ es2" ..
      with e1 show ?thesis by simp
    qed }
qed

lemma transfer_trace:
  "transfer env q ss t cols w = Inl (e, n, w') \<Longrightarrow> \<exists>es. trace w' = trace w @ es"
  "transfer env q ss t cols w = Inr (n, w') \<Longrightarrow> \<exists>es. trace w' = trace w @ es"
proof -
  let ?w0 = "record_calls [Select ss t cols] w"
  { assume a: "transfer env q ss t cols w = Inl (e, n, w')"
    show "\<exists>es. trace w' = trace w @ es"
    proof (cases "copy_rows env q cols (source_rows env ss t cols) [] 0 ?w0")
      case (Inl x)
      with a have "copy_rows env q cols (source_rows env ss t cols) [] 0 ?w0 = Inl (e, n, w')"
        by (simp add: transfer_def)
      from copy_rows_trace(1)[OF this] show ?thesis by auto
    next
      case (Inr y)
      then obtain batch n1 w1 where
        l: "copy_rows env q cols (source_rows env ss t cols) [] 0 ?w0 = Inr (batch, n1, w1)"
        by (cases y) auto
      from copy_rows_trace(2)[OF l] obtain es1 where e1: "trace w1 = trace ?w0 @ es1" ..
      from a l have "write_batch env q batch w1 = Inl (e, w')"
        by (auto simp: transfer_def split: if_splits sum.splits)
      from write_batch_trace(1)[OF this] obtain es2 where "trace w' = trace w1 @ es2" ..
      with e1 show ?thesis by simp
    qed }
  { assume a: "transfer env q ss t cols w = Inr (n, w')"
    then obtain batch n1 w1 where
      l: "copy_rows env q cols (source_rows env ss t cols) [] 0 ?w0 = Inr (batch, n1, w1)"
      by (auto simp: transfer_def split: sum.splits)
    from copy_rows_trace(2)[OF l] obtain es1 where e1: "trace w1 = trace ?w0 @ es1" ..
    show "\<exists>es. trace w' = trace w @ es"
    proof (cases "batch = []")
      case True
      with a l have "w' = w1" by (simp add: transfer_def)
      with e1 show ?thesis by simp
    next
      case False
      with a l have "write_batch env q batch w1 = Inr w'"
        by (auto simp: transfer_def split: sum.splits)
      from write_batch_trace(2)[OF this] obtain es2 where "trace w' = trace w1 @ es2" ..
      with e1 show ?thesis by simp
    qed }
qed

lemma try_block_trace:
  "try_block env t ss ts w = Inl (e, n, w') \<Longrightarrow>
     \<exists>es. trace w' = trace w @ preflight_calls env t ss ts @ es"
  "try_block env t ss ts w = Inr (n, w') \<Longrightarrow>
     \<exists>es. trace w' = trace w @ preflight_calls env t ss ts @ es"
  unfolding try_block_def
  by (auto dest!: transfer_trace)

lemma migrate_table_trace:
  assumes "reconciled env t ss ts \<noteq> []"
    and "0 < table_row_count env Source ss t"
    and "table_row_count env Target ts t = 0
         \<or> lower (input_response env (OverwriteTable t (table_row_count env Target ts t))) = ''s''"
  shows "\<exists>es. trace (world_after (migrate_table env t ss ts w))
               = trace w @ preflight_calls env t ss ts @ es"
proof (cases "try_block env t ss ts w")
  case (Inl x)
  obtain e n w5 where x: "x = (e, n, w5)" by (cases x)
  from try_block_trace(1)[OF Inl[unfolded x]] obtain es where
    "trace w5 = trace w @ preflight_calls env t ss ts @ es" ..
  then show ?thesis
    using migrate_table_try_block[OF assms, of w] Inl x
    by (simp add: world_after_def rollback_def rolled_back_def split: option.splits)
next
  case (Inr y)
  obtain n w5 where y: "y = (n, w5)" by (cases y)
  from try_block_trace(2)[OF Inr[unfolded y]] obtain es where
    "trace w5 = trace w @ preflight_calls env t ss ts @ es" ..
  then show ?thesis
    using migrate_table_try_block[OF assms, of w] Inr y by (simp add: world_after_def)
qed

section \<open>Evaluating the loop\<close>

text \<open>
  The loop on rows that do not fill a batch, on a concatenation, and on rows that fill
  exactly one batch: enough to run it on thousands of rows without unfolding them.
\<close>

lemma copy_rows_below:
  "length batch + length xs < batch_size \<Longrightarrow>
   copy_rows env q cols xs batch n w = Inr (batch @ map (\<lambda>r. map r cols) xs, n, w)"
  by (induction xs arbitrary: batch) simp_all

lemma copy_rows_append:
  "copy_rows env q cols (xs @ ys) batch n w =
     (case copy_rows env q cols xs batch n w of
        Inl x \<Rightarrow> Inl x
      | Inr (b, n1, w1) \<Rightarrow> copy_rows env q cols ys b n1 w1)"
  by (induction xs arbitrary: batch n w) (auto simp: Let_def split: sum.splits)

lemma copy_rows_fill:
  assumes "length xs = batch_size"
  shows "copy_rows env q cols (xs @ rest) [] n w =
     (case write_batch env q (map (\<lambda>r. map r cols) xs) w of
        Inl (e, w1) \<Rightarrow> Inl (e, n, w1)
      | Inr w1 \<Rightarrow> copy_rows env q cols rest [] (n + batch_size) w1)"
proof -
  from assms batch_size_pos obtain ys y where xs: "xs = ys @ [y]"
    by (cases xs rule: rev_cases) auto
  with assms have "length ([] :: 'a batch) + length ys < batch_size" by simp
  from copy_rows_below[OF this]
  have "copy_rows env q cols ys [] n w = Inr ([] @ map (\<lambda>r. map r cols) ys, n, w)" .
  then show ?thesis
    using assms by (simp add: xs copy_rows_append Let_def split: sum.splits)
qed

lemma rows_2500: "replicate 2500 r = replicate 1000 r @ replicate 1000 r @ replicate 500 r"
  by (simp add: replicate_add[symmetric])

section \<open>The example runs, evaluated\<close>

lemmas run_defs =
  migrate_table_def SOURCE_SCHEMA_def TARGET_SCHEMA_def COLUMN_MAPPING_def
  common_columns_def apply_mapping_def pk_column_def insert_query_def transfer_def
  batch_size_def write_batch_def executemany_def commit_def rollback_def record_calls_def
  lower_def lower_char_def Let_def

lemma healthy_tokens:
  "migrate_table healthy_env ''tokens'' SOURCE_SCHEMA TARGET_SCHEMA empty_world =
     Inr (Success ''tokens'' 2500 2, tokens_committed)"
  by (simp add: run_defs healthy_env_def demo_env_def empty_world_def tokens_upsert_def
        tokens_committed_def rows_2500 copy_rows_fill copy_rows_below)

lemma healthy_values:
  "source_values healthy_env ''tokens'' SOURCE_SCHEMA TARGET_SCHEMA = replicate 2500 [7, 7]"
  by (simp add: source_values_def reconciled_def run_defs healthy_env_def demo_env_def)

lemma conflict_tokens:
  "migrate_table conflict_env ''tokens'' SOURCE_SCHEMA TARGET_SCHEMA empty_world =
     Inr (Success ''tokens'' 2500 2, tokens_dropped)"
  by (simp add: run_defs conflict_env_def demo_env_def empty_world_def tokens_skip_insert_def
        tokens_dropped_def rows_2500 copy_rows_fill copy_rows_below)




lemma demo_tables: "tables_to_migrate demo_env = [''tokens'', ''pools'']"
  by (simp add: tables_to_migrate_def TABLES_TO_MIGRATE_def demo_env_def)

lemma demo_connects: "can_connect demo_env Source" "can_connect demo_env Target"
  by (simp_all add: demo_env_def)

lemma demo_confirmed: "lower (input_response demo_env ContinueRun) = ''s''"
  by (simp add: demo_env_def lower_def lower_char_def)

lemma demo_now: "now_isoformat demo_env = ''2024-01-01T00:00:00''"
  by (simp add: demo_env_def)

lemma demo_main_tokens:
  "migrate_table demo_env ''tokens'' SOURCE_SCHEMA TARGET_SCHEMA
     (record_calls [Input ContinueRun] empty_world)
   = Inr (Error ''tokens'' ''type error'' 1000,
          \<lparr>committed = committed tokens_failed, pending = [],
           trace = Input ContinueRun # trace tokens_failed\<rparr>)"
  by (simp add: run_defs rolled_back_def demo_env_def empty_world_def tokens_upsert_def
        tokens_failed_def rows_2500 copy_rows_fill copy_rows_below)

lemma demo_main_pools:
  "migrate_table demo_env ''pools'' SOURCE_SCHEMA TARGET_SCHEMA
     \<lparr>committed = committed tokens_failed, pending = [],
      trace = Input ContinueRun # trace tokens_failed\<rparr>
   = Inr (Success ''pools'' 3 2, demo_finished)"
  by (simp add: run_defs demo_env_def tokens_upsert_def pools_upsert_def pools_calls_def
        tokens_failed_def pools_after_tokens_failed_def demo_finished_def copy_rows_below)

lemma demo_main_tables:
  "migrate_tables demo_env [''tokens'', ''pools''] (record_calls [Input ContinueRun] empty_world)
   = Inr ([Error ''tokens'' ''type error'' 1000, Success ''pools'' 3 2], demo_finished)"
  by (simp add: demo_main_tokens demo_main_pools)





lemma demo_main: "main demo_env empty_world = (LogWritten demo_report, demo_finished)"
  unfolding main_def demo_tables Let_def demo_main_tables
  by (simp add: demo_connects demo_confirmed demo_now demo_report_def SOURCE_SCHEMA_def
        TARGET_SCHEMA_def)

lemma skip_reconciled:
  "reconciled skip_env ''audit_log'' SOURCE_SCHEMA TARGET_SCHEMA = []"
  "reconciled skip_env ''dex_state'' SOURCE_SCHEMA TARGET_SCHEMA = []"
  "reconciled skip_env ''tokens'' SOURCE_SCHEMA TARGET_SCHEMA = [''address'']"
  "reconciled skip_env ''pools'' SOURCE_SCHEMA TARGET_SCHEMA = [''address'']"
  by (simp_all add: reconciled_def common_columns_def apply_mapping_def COLUMN_MAPPING_def
        skip_env_def demo_env_def)

lemma skip_counts:
  "table_row_count skip_env Source SOURCE_SCHEMA ''dex_state'' = 0"
  "table_row_count skip_env Source SOURCE_SCHEMA ''tokens'' = 0"
  "table_row_count skip_env Source SOURCE_SCHEMA ''pools'' = 5"
  "table_row_count skip_env Target TARGET_SCHEMA ''pools'' = 4"
  by (simp_all add: skip_env_def demo_env_def)

lemma skip_answer: "lower (input_response skip_env p) = ''n''"
  by (simp add: skip_env_def demo_env_def lower_def lower_char_def)

section \<open>Column reconciliation\<close>

text \<open>
  C5. For every pair of column lists and every override rule, the reconciliation of the
  script (exclude first, include second) is the list the specification's algorithm
  computes (include first, exclude second, then the intersection with the target
  columns, in source order).
\<close>

theorem common_columns_refines_spec:
  "common_columns rule source_columns target_columns =
     reconcile_spec source_columns target_columns rule"
  by (auto simp: common_columns_def apply_mapping_def reconcile_spec_def Let_def
           split: option.splits intro: filter_cong)

text \<open>
  C8. The reconciled columns are columns of the source and of the target; and a rule with
  an empty exclude list and no include list reconciles as no rule does.
\<close>

theorem common_columns_subset:
  "set (common_columns rule source_columns target_columns)
     \<subseteq> set source_columns \<inter> set target_columns
   \<and> common_columns (Some \<lparr>exclude_cols = Some [], include_cols = None\<rparr>)
        source_columns target_columns
     = common_columns None source_columns target_columns"
  by (auto simp: common_columns_def apply_mapping_def Let_def split: option.splits)

section \<open>Batches\<close>

text \<open>
  C4. A table with N > 0 source rows that is migrated without failure, at the batch size
  1000: the writes committed for it are ceil(N / 1000) batches, every batch but the last
  holds exactly 1000 rows and the last holds the remainder, together they are the rows of
  the source cursor in the cursor's order, and the calls on the target are each batch's
  \<open>executemany\<close> followed by its \<open>commit\<close>, batch after batch.
\<close>

theorem batches_committed_in_order:
  assumes "pending w = []"
    and "migrate_table env t ss ts w = Inr (Success t' n c, w')"
    and "source_values env t ss ts \<noteq> []"
  shows "committed w' = committed w @ new_committed w w'
       \<and> pending w' = []
       \<and> length (new_committed w w') = (length (source_values env t ss ts) + batch_size - 1) div batch_size
       \<and> batch_size = 1000
       \<and> concat (map sent_batch (new_committed w w')) = source_values env t ss ts
       \<and> sum_list (map (length \<circ> sent_batch) (new_committed w w')) = length (source_values env t ss ts)
       \<and> full_batches (built_query env t ss ts) (butlast (new_committed w w'))
       \<and> sent_query (last (new_committed w w')) = built_query env t ss ts
       \<and> length (sent_batch (last (new_committed w w')))
            = length (source_values env t ss ts) - batch_size * (length (new_committed w w') - 1)
       \<and> target_writes (new_calls w w') = write_calls (new_committed w w')"
proof -
  let ?vals = "source_values env t ss ts"
  let ?q = "built_query env t ss ts"
  from success_writes[OF assms(1,2)] obtain ws where
    ws: "committed w' = committed w @ ws" "pending w' = []"
        "list_all (\<lambda>x. sent_query x = ?q) ws"
        "concat (map sent_batch ws) = ?vals"
        "full_batches ?q (butlast ws)"
        "ws = [] \<or> 0 < length (sent_batch (last ws)) \<and> length (sent_batch (last ws)) \<le> batch_size"
        "trace w' = trace w @ preflight_calls env t ss ts
                 @ Select ss t (reconciled env t ss ts) # write_calls ws"
    by blast
  have nc: "new_committed w w' = ws" using ws(1) by (rule new_committed_append)
  have ncalls: "new_calls w w' = preflight_calls env t ss ts
                 @ Select ss t (reconciled env t ss ts) # write_calls ws"
    using ws(7) by (rule new_calls_append)
  from ws(4) assms(3) have ne: "ws \<noteq> []" by auto
  then obtain xs x where split: "ws = xs @ [x]" by (cases ws rule: rev_cases) auto
  with ws(5,6) have fx: "full_batches ?q xs" and lx: "0 < length (sent_batch x)" "length (sent_batch x) \<le> batch_size"
    by auto
  have N: "length ?vals = batch_size * length xs + length (sent_batch x)"
    using ws(4)[symmetric] full_batches_length[OF fx] by (simp add: split)
  have count: "(length ?vals + batch_size - 1) div batch_size = length ws"
    unfolding N using ceil_div_batches[OF batch_size_pos lx] by (simp add: split)
  have sum: "sum_list (map (length \<circ> sent_batch) ws) = length ?vals"
    using ws(4)[symmetric] by (simp add: length_concat comp_def)
  have lastq: "sent_query (last ws) = ?q" using ws(3) by (simp add: split)
  have lastlen: "length (sent_batch (last ws)) = length ?vals - batch_size * (length ws - 1)"
    unfolding N by (simp add: split)
  have tw: "target_writes (new_calls w w') = write_calls ws"
    unfolding ncalls
    using target_writes_write_calls[of ws] target_writes_preflight[of env t ss ts]
    by (simp add: target_writes_def)
  show ?thesis
    unfolding nc using ws(1,2,4,5) count sum lastq lastlen tw
    by (simp add: batch_size_def)
qed

theorem batches_committed_in_order_witness:
  "pending empty_world = []
   \<and> migrate_table healthy_env ''tokens'' SOURCE_SCHEMA TARGET_SCHEMA empty_world =
       Inr (Success ''tokens'' 2500 2, tokens_committed)
   \<and> source_values healthy_env ''tokens'' SOURCE_SCHEMA TARGET_SCHEMA \<noteq> []
   \<and> length (new_committed empty_world tokens_committed) = 3
   \<and> map (length \<circ> sent_batch) (new_committed empty_world tokens_committed) = [1000, 1000, 500]
   \<and> target_writes (new_calls empty_world tokens_committed)
       = [ExecuteMany tokens_upsert (replicate 1000 [7, 7]), Commit,
          ExecuteMany tokens_upsert (replicate 1000 [7, 7]), Commit,
          ExecuteMany tokens_upsert (replicate 500 [7, 7]), Commit]"
proof -
  have p: "pending empty_world = []" by (simp add: empty_world_def)
  have v: "source_values healthy_env ''tokens'' SOURCE_SCHEMA TARGET_SCHEMA \<noteq> []"
    by (simp add: healthy_values)
  note th = batches_committed_in_order[OF p healthy_tokens v]
  have nc: "new_committed empty_world tokens_committed = committed tokens_committed"
    by (simp add: new_committed_def empty_world_def)
  from th have l: "length (new_committed empty_world tokens_committed) = 3"
    by (simp add: healthy_values batch_size_def)
  have m: "map (length \<circ> sent_batch) (new_committed empty_world tokens_committed)
             = [1000, 1000, 500]"
    unfolding nc by (simp add: tokens_committed_def)
  from th have "target_writes (new_calls empty_world tokens_committed)
                  = write_calls (new_committed empty_world tokens_committed)"
    by simp
  then have t: "target_writes (new_calls empty_world tokens_committed)
       = [ExecuteMany tokens_upsert (replicate 1000 [7, 7]), Commit,
          ExecuteMany tokens_upsert (replicate 1000 [7, 7]), Commit,
          ExecuteMany tokens_upsert (replicate 500 [7, 7]), Commit]"
    unfolding nc by (simp add: tokens_committed_def write_calls_def)
  show ?thesis using p healthy_tokens v l m t by simp
qed

section \<open>What the reported count counts\<close>

text \<open>
  C10. For a table that ends in success, the reported \<open>rows_migrated\<close> is the number of
  rows read from the source cursor, which is the number of rows sent to the target in
  \<open>executemany\<close> calls and the number of rows in the committed batches. It holds whatever
  the database did with the rows: the count never looks at a \<open>rowcount\<close>. In the witness
  the statement is the duplicate-skip insert and the database drops every row, yet 2500
  rows are reported.
\<close>

theorem rows_migrated_counts_rows_sent:
  assumes "pending w = []"
    and "migrate_table env t ss ts w = Inr (Success t' n c, w')"
  shows "n = length (source_rows env ss t (reconciled env t ss ts))
       \<and> n = sum_list (map rows_sent (new_calls w w'))
       \<and> n = sum_list (map (length \<circ> sent_batch) (new_committed w w'))"
proof -
  let ?q = "built_query env t ss ts"
  from success_writes[OF assms] obtain ws where
    ws: "committed w' = committed w @ ws"
        "concat (map sent_batch ws) = source_values env t ss ts"
        "n = length (source_values env t ss ts)"
        "trace w' = trace w @ preflight_calls env t ss ts
                 @ Select ss t (reconciled env t ss ts) # write_calls ws"
    by blast
  have nc: "new_committed w w' = ws" using ws(1) by (rule new_committed_append)
  have ncalls: "new_calls w w' = preflight_calls env t ss ts
                 @ Select ss t (reconciled env t ss ts) # write_calls ws"
    using ws(4) by (rule new_calls_append)
  have a: "n = length (source_rows env ss t (reconciled env t ss ts))"
    using ws(3) by (simp add: source_values_def)
  have b: "sum_list (map rows_sent (new_calls w w')) = n"
    unfolding ncalls using ws(2,3) by (simp add: rows_sent_preflight rows_sent_write_calls)
  have c: "sum_list (map (length \<circ> sent_batch) ws) = n"
    using ws(2)[symmetric] ws(3) by (simp add: length_concat comp_def)
  show ?thesis using a b c nc by simp
qed

theorem rows_migrated_counts_rows_sent_witness:
  "pending empty_world = []
   \<and> migrate_table conflict_env ''tokens'' SOURCE_SCHEMA TARGET_SCHEMA empty_world =
       Inr (Success ''tokens'' 2500 2, tokens_dropped)
   \<and> length (source_rows conflict_env SOURCE_SCHEMA ''tokens''
               (reconciled conflict_env ''tokens'' SOURCE_SCHEMA TARGET_SCHEMA)) = 2500
   \<and> sum_list (map rows_sent (new_calls empty_world tokens_dropped)) = 2500
   \<and> map sent_query (committed tokens_dropped)
       = [tokens_skip_insert, tokens_skip_insert, tokens_skip_insert]
   \<and> sum_list (map rowcount (committed tokens_dropped)) = 0"
proof -
  have p: "pending empty_world = []" by (simp add: empty_world_def)
  note th = rows_migrated_counts_rows_sent[OF p conflict_tokens]
  from th have a: "length (source_rows conflict_env SOURCE_SCHEMA ''tokens''
               (reconciled conflict_env ''tokens'' SOURCE_SCHEMA TARGET_SCHEMA)) = 2500"
    by simp
  from th have b: "sum_list (map rows_sent (new_calls empty_world tokens_dropped)) = 2500"
    by simp
  have c: "map sent_query (committed tokens_dropped)
       = [tokens_skip_insert, tokens_skip_insert, tokens_skip_insert]"
    "sum_list (map rowcount (committed tokens_dropped)) = 0"
    by (simp_all add: tokens_dropped_def)
  show ?thesis using p conflict_tokens a b c by simp
qed

section \<open>A failing batch\<close>




section \<open>The report\<close>

text \<open>
  C2, as the script has it. In a run that connects, finds at least one table on both
  sides and is confirmed by the operator, the loop over the tables either ends on an
  exception, and the run is aborted, or returns its results, and then the log is written:
  the report holds the timestamp, the two schema names, one result for each table in the
  configured order, and a total that is the sum of \<open>rows_migrated\<close> over the results whose
  status is \<open>success\<close>. The rows a table committed before it ended in \<open>error\<close> stay in that
  table's result and are not part of the total.
\<close>

theorem report_contents:
  assumes "can_connect env Source" and "can_connect env Target"
    and "tables_to_migrate env \<noteq> []"
    and "lower (input_response env ContinueRun) = ''s''"
  shows "main env w =
           (case migrate_tables env (tables_to_migrate env)
                   (record_calls [Input ContinueRun] w) of
              Inl (e, w2) \<Rightarrow> (Aborted e, w2)
            | Inr (rs, w2) \<Rightarrow>
                (LogWritten
                   \<lparr>timestamp = now_isoformat env,
                    source_schema = SOURCE_SCHEMA,
                    target_schema = TARGET_SCHEMA,
                    results = rs,
                    total_rows_migrated =
                      sum_list (map rows_migrated
                        (filter (\<lambda>r. status r = ''success'') rs))\<rparr>,
                 w2))
       \<and> (\<forall>rs w2. migrate_tables env (tables_to_migrate env)
                      (record_calls [Input ContinueRun] w) = Inr (rs, w2)
                    \<longrightarrow> map table_name rs = tables_to_migrate env)"
proof -
  have names: "\<forall>rs w2. migrate_tables env (tables_to_migrate env)
                      (record_calls [Input ContinueRun] w) = Inr (rs, w2)
                    \<longrightarrow> map table_name rs = tables_to_migrate env"
    using migrate_tables_table_names by blast
  have run: "main env w =
           (case migrate_tables env (tables_to_migrate env)
                   (record_calls [Input ContinueRun] w) of
              Inl (e, w2) \<Rightarrow> (Aborted e, w2)
            | Inr (rs, w2) \<Rightarrow>
                (LogWritten
                   \<lparr>timestamp = now_isoformat env,
                    source_schema = SOURCE_SCHEMA,
                    target_schema = TARGET_SCHEMA,
                    results = rs,
                    total_rows_migrated =
                      sum_list (map rows_migrated
                        (filter (\<lambda>r. status r = ''success'') rs))\<rparr>,
                 w2))"
    using assms
    by (simp add: main_def Let_def total_rows_successes split: sum.splits prod.splits)
  show ?thesis using run names by (rule conjI)
qed

theorem report_contents_witness:
  "can_connect demo_env Source \<and> can_connect demo_env Target
   \<and> tables_to_migrate demo_env \<noteq> []
   \<and> lower (input_response demo_env ContinueRun) = ''s''
   \<and> migrate_tables demo_env (tables_to_migrate demo_env)
        (record_calls [Input ContinueRun] empty_world)
       = Inr (results demo_report, demo_finished)
   \<and> main demo_env empty_world = (LogWritten demo_report, demo_finished)
   \<and> map table_name (results demo_report) = tables_to_migrate demo_env
   \<and> total_rows_migrated demo_report
       = sum_list (map rows_migrated
           (filter (\<lambda>r. status r = ''success'') (results demo_report)))"
proof -
  note c = demo_connects
  have t: "tables_to_migrate demo_env \<noteq> []" by (simp add: demo_tables)
  note i = demo_confirmed
  have l: "migrate_tables demo_env (tables_to_migrate demo_env)
        (record_calls [Input ContinueRun] empty_world)
       = Inr (results demo_report, demo_finished)"
    unfolding demo_tables demo_main_tables by (simp add: demo_report_def)
  note th = report_contents[OF c t i, of empty_world, unfolded l]
  from th have m: "main demo_env empty_world = (LogWritten demo_report, demo_finished)"
    by (simp add: demo_now demo_report_def SOURCE_SCHEMA_def TARGET_SCHEMA_def)
  from th have n: "map table_name (results demo_report) = tables_to_migrate demo_env"
    by blast
  have s: "total_rows_migrated demo_report
       = sum_list (map rows_migrated
           (filter (\<lambda>r. status r = ''success'') (results demo_report)))"
    by (simp add: demo_report_def)
  show ?thesis using c t i l m n s by simp
qed

text \<open>
  C2 as stated fails: in the run of \<open>demo_env\<close> the table \<open>tokens\<close> commits 1000 rows
  and then fails, \<open>pools\<close> migrates 3 rows, 1003 rows are committed on the target, and the
  report's total is 3.
\<close>

theorem report_total_counterexample:
  "main demo_env empty_world = (LogWritten demo_report, demo_finished)
   \<and> results demo_report = [Error ''tokens'' ''type error'' 1000, Success ''pools'' 3 2]
   \<and> sum_list (map rows_migrated (results demo_report)) = 1003
   \<and> sum_list (map (length \<circ> sent_batch) (committed demo_finished)) = 1003
   \<and> total_rows_migrated demo_report = 3
   \<and> total_rows_migrated demo_report \<noteq> sum_list (map rows_migrated (results demo_report))"
  by (simp add: demo_main)
     (simp add: demo_report_def demo_finished_def pools_after_tokens_failed_def
        tokens_failed_def)

section \<open>Skipped tables\<close>

text \<open>
  C9. A table whose reconciled column list is empty is reported as \<open>skipped\<close> with the
  reason \<open>No hay columnas comunes\<close>, never as \<open>success\<close>. The only calls made for it are the
  two column queries: no row count is asked, the operator is not prompted, nothing is
  written, and the target's committed and pending writes are what they were.
\<close>

theorem no_common_columns_is_skipped:
  assumes "reconciled env t ss ts = []"
  shows "migrate_table env t ss ts w
           = Inr (Skipped t reason_no_common_columns 0,
                  world_after (migrate_table env t ss ts w))
       \<and> status (Skipped t reason_no_common_columns 0) = ''skipped''
       \<and> new_calls w (world_after (migrate_table env t ss ts w))
           = [GetColumns Source ss t, GetColumns Target ts t]
       \<and> target_writes (new_calls w (world_after (migrate_table env t ss ts w))) = []
       \<and> filter is_row_count (new_calls w (world_after (migrate_table env t ss ts w))) = []
       \<and> filter is_input (new_calls w (world_after (migrate_table env t ss ts w))) = []
       \<and> committed (world_after (migrate_table env t ss ts w)) = committed w
       \<and> pending (world_after (migrate_table env t ss ts w)) = pending w"
proof -
  have m: "migrate_table env t ss ts w
             = Inr (Skipped t reason_no_common_columns 0,
                    record_calls [GetColumns Source ss t, GetColumns Target ts t] w)"
    using assms by (simp add: migrate_table_def reconciled_def Let_def)
  show ?thesis
    unfolding m by (simp add: world_after_def new_calls_def target_writes_def)
qed

theorem no_common_columns_is_skipped_witness:
  "reconciled skip_env ''audit_log'' SOURCE_SCHEMA TARGET_SCHEMA = []
   \<and> migrate_table skip_env ''audit_log'' SOURCE_SCHEMA TARGET_SCHEMA empty_world
       = Inr (Skipped ''audit_log'' ''No hay columnas comunes'' 0,
              world_after (migrate_table skip_env ''audit_log'' SOURCE_SCHEMA TARGET_SCHEMA
                 empty_world))
   \<and> trace (world_after (migrate_table skip_env ''audit_log'' SOURCE_SCHEMA TARGET_SCHEMA
        empty_world))
       = [GetColumns Source ''arbitrage'' ''audit_log'',
          GetColumns Target ''mig_topology'' ''audit_log'']
   \<and> committed (world_after (migrate_table skip_env ''audit_log'' SOURCE_SCHEMA TARGET_SCHEMA
        empty_world))
       = []"
proof -
  note th = no_common_columns_is_skipped[OF skip_reconciled(1), of empty_world]
  from th have a: "migrate_table skip_env ''audit_log'' SOURCE_SCHEMA TARGET_SCHEMA empty_world
       = Inr (Skipped ''audit_log'' ''No hay columnas comunes'' 0,
              world_after (migrate_table skip_env ''audit_log'' SOURCE_SCHEMA TARGET_SCHEMA
                 empty_world))"
    unfolding reason_no_common_columns_def by blast
  from th have b0: "new_calls empty_world
        (world_after (migrate_table skip_env ''audit_log'' SOURCE_SCHEMA TARGET_SCHEMA
           empty_world))
       = [GetColumns Source SOURCE_SCHEMA ''audit_log'',
          GetColumns Target TARGET_SCHEMA ''audit_log'']"
    by blast
  then have b: "trace (world_after (migrate_table skip_env ''audit_log'' SOURCE_SCHEMA
        TARGET_SCHEMA empty_world))
       = [GetColumns Source ''arbitrage'' ''audit_log'',
          GetColumns Target ''mig_topology'' ''audit_log'']"
    by (simp add: new_calls_def empty_world_def SOURCE_SCHEMA_def TARGET_SCHEMA_def)
  from th have c0: "committed (world_after (migrate_table skip_env ''audit_log'' SOURCE_SCHEMA
        TARGET_SCHEMA empty_world)) = committed empty_world"
    by blast
  then have c: "committed (world_after (migrate_table skip_env ''audit_log'' SOURCE_SCHEMA
        TARGET_SCHEMA empty_world)) = []"
    by (simp add: empty_world_def)
  show ?thesis using skip_reconciled(1) a b c by blast
qed

text \<open>
  C7, as the script has it. The column check comes first, so the claim is about a table
  with at least one reconciled column. If its source count is zero the result is
  \<open>skipped\<close> with the reason \<open>Tabla vacia en origen\<close> (with an acute accent on the i) and the
  operator is not prompted: the calls are the two column queries and the two counts. If
  the source is not empty and the target count is not zero, the fifth call is the prompt,
  before the primary-key query and any write; and when the answer, lowercased, is not
  \<open>s\<close>, the result is \<open>skipped\<close> with the reason \<open>Usuario cancelo\<close> (with an acute accent on
  the last o), the prompt is the last call and nothing is written.
\<close>

theorem empty_source_and_overwrite_prompt:
  assumes "reconciled env t ss ts \<noteq> []"
  shows "(table_row_count env Source ss t = 0 \<longrightarrow>
            migrate_table env t ss ts w
              = Inr (Skipped t reason_source_empty 0,
                 record_calls [GetColumns Source ss t, GetColumns Target ts t,
                               RowCount Source ss t, RowCount Target ts t] w))
       \<and> (0 < table_row_count env Source ss t \<and> 0 < table_row_count env Target ts t \<longrightarrow>
            take 5 (new_calls w (world_after (migrate_table env t ss ts w)))
              = [GetColumns Source ss t, GetColumns Target ts t,
                 RowCount Source ss t, RowCount Target ts t,
                 Input (OverwriteTable t (table_row_count env Target ts t))]
            \<and> (lower (input_response env (OverwriteTable t (table_row_count env Target ts t)))
                  \<noteq> ''s'' \<longrightarrow>
                 migrate_table env t ss ts w
                   = Inr (Skipped t reason_user_cancelled 0,
                      record_calls [GetColumns Source ss t, GetColumns Target ts t,
                                    RowCount Source ss t, RowCount Target ts t,
                                    Input (OverwriteTable t (table_row_count env Target ts t))]
                        w)))"
proof (intro conjI impI)
  assume "table_row_count env Source ss t = 0"
  with assms show "migrate_table env t ss ts w
              = Inr (Skipped t reason_source_empty 0,
                 record_calls [GetColumns Source ss t, GetColumns Target ts t,
                               RowCount Source ss t, RowCount Target ts t] w)"
    by (simp add: migrate_table_def reconciled_def Let_def record_calls_twice)
next
  assume c: "0 < table_row_count env Source ss t \<and> 0 < table_row_count env Target ts t"
  assume "lower (input_response env (OverwriteTable t (table_row_count env Target ts t))) \<noteq> ''s''"
  with assms c show "migrate_table env t ss ts w
                   = Inr (Skipped t reason_user_cancelled 0,
                      record_calls [GetColumns Source ss t, GetColumns Target ts t,
                                    RowCount Source ss t, RowCount Target ts t,
                                    Input (OverwriteTable t (table_row_count env Target ts t))]
                        w)"
    by (simp add: migrate_table_def reconciled_def Let_def record_calls_twice)
next
  assume c: "0 < table_row_count env Source ss t \<and> 0 < table_row_count env Target ts t"
  let ?five = "[GetColumns Source ss t, GetColumns Target ts t,
                 RowCount Source ss t, RowCount Target ts t,
                 Input (OverwriteTable t (table_row_count env Target ts t))]"
  show "take 5 (new_calls w (world_after (migrate_table env t ss ts w))) = ?five"
  proof (cases "lower (input_response env (OverwriteTable t (table_row_count env Target ts t))) = ''s''")
    case True
    then have ok: "table_row_count env Target ts t = 0
         \<or> lower (input_response env (OverwriteTable t (table_row_count env Target ts t))) = ''s''"
      by simp
    from c have c1: "0 < table_row_count env Source ss t" by simp
    from migrate_table_trace[OF assms c1 ok, of w] obtain es where
      "trace (world_after (migrate_table env t ss ts w)) = trace w @ preflight_calls env t ss ts @ es" ..
    then have "new_calls w (world_after (migrate_table env t ss ts w)) = preflight_calls env t ss ts @ es"
      by (rule new_calls_append)
    then show ?thesis using c by (simp add: preflight_calls_def)
  next
    case False
    with assms c have "migrate_table env t ss ts w
                   = Inr (Skipped t reason_user_cancelled 0, record_calls ?five w)"
      by (simp add: migrate_table_def reconciled_def Let_def record_calls_twice)
    then show ?thesis by (simp add: world_after_def new_calls_def)
  qed
qed

theorem empty_source_and_overwrite_prompt_witness:
  "reconciled skip_env ''tokens'' SOURCE_SCHEMA TARGET_SCHEMA \<noteq> []
   \<and> table_row_count skip_env Source SOURCE_SCHEMA ''tokens'' = 0
   \<and> migrate_table skip_env ''tokens'' SOURCE_SCHEMA TARGET_SCHEMA empty_world
       = Inr (Skipped ''tokens'' reason_source_empty 0,
              world_after (migrate_table skip_env ''tokens'' SOURCE_SCHEMA TARGET_SCHEMA
                 empty_world))
   \<and> filter is_input
        (trace (world_after (migrate_table skip_env ''tokens'' SOURCE_SCHEMA TARGET_SCHEMA empty_world)))
       = []
   \<and> reconciled skip_env ''pools'' SOURCE_SCHEMA TARGET_SCHEMA \<noteq> []
   \<and> 0 < table_row_count skip_env Source SOURCE_SCHEMA ''pools''
   \<and> 0 < table_row_count skip_env Target TARGET_SCHEMA ''pools''
   \<and> lower (input_response skip_env (OverwriteTable ''pools'' 4)) \<noteq> ''s''
   \<and> migrate_table skip_env ''pools'' SOURCE_SCHEMA TARGET_SCHEMA empty_world
       = Inr (Skipped ''pools'' reason_user_cancelled 0,
              world_after (migrate_table skip_env ''pools'' SOURCE_SCHEMA TARGET_SCHEMA
                 empty_world))
   \<and> trace (world_after (migrate_table skip_env ''pools'' SOURCE_SCHEMA TARGET_SCHEMA empty_world))
       = [GetColumns Source ''arbitrage'' ''pools'', GetColumns Target ''mig_topology'' ''pools'',
          RowCount Source ''arbitrage'' ''pools'', RowCount Target ''mig_topology'' ''pools'',
          Input (OverwriteTable ''pools'' 4)]"
proof -
  have r1: "reconciled skip_env ''tokens'' SOURCE_SCHEMA TARGET_SCHEMA \<noteq> []"
    and r2: "reconciled skip_env ''pools'' SOURCE_SCHEMA TARGET_SCHEMA \<noteq> []"
    by (simp_all add: skip_reconciled)
  have n: "lower (input_response skip_env (OverwriteTable ''pools'' 4)) \<noteq> ''s''"
    by (simp add: skip_answer)
  note t1 = empty_source_and_overwrite_prompt[OF r1, of empty_world]
  note t2 = empty_source_and_overwrite_prompt[OF r2, of empty_world]
  from t1 skip_counts(2)
  have m1: "migrate_table skip_env ''tokens'' SOURCE_SCHEMA TARGET_SCHEMA empty_world
              = Inr (Skipped ''tokens'' reason_source_empty 0,
                 record_calls [GetColumns Source SOURCE_SCHEMA ''tokens'',
                               GetColumns Target TARGET_SCHEMA ''tokens'',
                               RowCount Source SOURCE_SCHEMA ''tokens'',
                               RowCount Target TARGET_SCHEMA ''tokens''] empty_world)"
    by blast
  from t2 n have m2: "migrate_table skip_env ''pools'' SOURCE_SCHEMA TARGET_SCHEMA empty_world
              = Inr (Skipped ''pools'' reason_user_cancelled 0,
                 record_calls [GetColumns Source SOURCE_SCHEMA ''pools'',
                               GetColumns Target TARGET_SCHEMA ''pools'',
                               RowCount Source SOURCE_SCHEMA ''pools'',
                               RowCount Target TARGET_SCHEMA ''pools'',
                               Input (OverwriteTable ''pools'' 4)] empty_world)"
    by (simp add: skip_counts)
  have a: "filter is_input
        (trace (world_after (migrate_table skip_env ''tokens'' SOURCE_SCHEMA TARGET_SCHEMA empty_world)))
       = []"
    unfolding m1 by (simp add: world_after_def empty_world_def)
  have b: "trace (world_after (migrate_table skip_env ''pools'' SOURCE_SCHEMA TARGET_SCHEMA empty_world))
       = [GetColumns Source ''arbitrage'' ''pools'', GetColumns Target ''mig_topology'' ''pools'',
          RowCount Source ''arbitrage'' ''pools'', RowCount Target ''mig_topology'' ''pools'',
          Input (OverwriteTable ''pools'' 4)]"
    unfolding m2 by (simp add: world_after_def empty_world_def SOURCE_SCHEMA_def TARGET_SCHEMA_def)
  have c: "0 < table_row_count skip_env Source SOURCE_SCHEMA ''pools''"
    "0 < table_row_count skip_env Target TARGET_SCHEMA ''pools''"
    by (simp_all add: skip_counts)
  show ?thesis
    using r1 r2 n skip_counts(2) a b c by (simp add: m1 m2 world_after_def)
qed

text \<open>
  C7 as stated fails for a table with no reconciled column: \<open>dex_state\<close> is empty in the
  source, and its result carries the reason of C9, not \<open>Tabla vacia en origen\<close>; its row
  counts are never asked.
\<close>

theorem empty_source_counterexample:
  "table_row_count skip_env Source SOURCE_SCHEMA ''dex_state'' = 0
   \<and> migrate_table skip_env ''dex_state'' SOURCE_SCHEMA TARGET_SCHEMA empty_world
       = Inr (Skipped ''dex_state'' reason_no_common_columns 0,
          \<lparr>committed = [], pending = [],
           trace = [GetColumns Source ''arbitrage'' ''dex_state'',
                    GetColumns Target ''mig_topology'' ''dex_state'']\<rparr>)
   \<and> reason_no_common_columns \<noteq> reason_source_empty"
  by (simp add: skip_counts)
     (simp add: run_defs skip_env_def demo_env_def empty_world_def
        reason_no_common_columns_def reason_source_empty_def)

section \<open>The conflict strategy\<close>

text \<open>
  C6. When the primary key the lookup detects is one of the reconciled columns, the
  statement is the insert that, on a conflict on that key, overwrites the other
  reconciled columns, each of them and only them, in their order; when no key is
  detected, or the key is not a reconciled column, it is the insert that does nothing on
  any conflict. Column names of a catalog are not empty; for the empty name, which
  Python reads as false, the script would take the second statement.
\<close>

theorem conflict_strategy:
  "(pk_column pk_rows = Some k \<and> k \<noteq> [] \<and> k \<in> set cols \<longrightarrow>
      insert_query ts t (pk_column pk_rows) cols
        = OnConflictUpdate ts t cols k (filter (\<lambda>c. c \<noteq> k) cols)
      \<and> set (filter (\<lambda>c. c \<noteq> k) cols) = set cols - {k})
   \<and> (pk_column pk_rows = None \<or> (pk_column pk_rows = Some k \<and> k \<notin> set cols) \<longrightarrow>
      insert_query ts t (pk_column pk_rows) cols = OnConflictNothing ts t cols)"
  by (auto simp: insert_query_def)

theorem conflict_strategy_witness:
  "pk_column [''address''] = Some ''address'' \<and> ''address'' \<noteq> []
   \<and> ''address'' \<in> set [''address'', ''symbol'', ''decimals'']
   \<and> insert_query ''mig_topology'' ''tokens'' (pk_column [''address''])
        [''address'', ''symbol'', ''decimals'']
       = OnConflictUpdate ''mig_topology'' ''tokens'' [''address'', ''symbol'', ''decimals'']
           ''address'' [''symbol'', ''decimals'']
   \<and> pk_column [] = None
   \<and> insert_query ''mig_topology'' ''audit_log'' (pk_column []) [''event'', ''at'']
       = OnConflictNothing ''mig_topology'' ''audit_log'' [''event'', ''at'']
   \<and> pk_column [''id''] = Some ''id'' \<and> ''id'' \<notin> set [''event'', ''at'']
   \<and> insert_query ''mig_topology'' ''audit_log'' (pk_column [''id'']) [''event'', ''at'']
       = OnConflictNothing ''mig_topology'' ''audit_log'' [''event'', ''at'']"
proof -
  have p1: "pk_column [''address''] = Some ''address''" and p2: "pk_column [] = None"
    and p3: "pk_column [''id''] = Some ''id''"
    by (simp_all add: pk_column_def)
  have k1: "''address'' \<noteq> []" "''address'' \<in> set [''address'', ''symbol'', ''decimals'']"
    and k3: "''id'' \<notin> set [''event'', ''at'']"
    by simp_all
  from conflict_strategy[of "[''address'']" "''address''" "[''address'', ''symbol'', ''decimals'']"
         "''mig_topology''" "''tokens''"] p1 k1
  have a: "insert_query ''mig_topology'' ''tokens'' (pk_column [''address''])
        [''address'', ''symbol'', ''decimals'']
       = OnConflictUpdate ''mig_topology'' ''tokens'' [''address'', ''symbol'', ''decimals'']
           ''address'' [''symbol'', ''decimals'']"
    by simp
  from conflict_strategy[of "[]" "''id''" "[''event'', ''at'']" "''mig_topology''" "''audit_log''"] p2
  have b: "insert_query ''mig_topology'' ''audit_log'' (pk_column []) [''event'', ''at'']
       = OnConflictNothing ''mig_topology'' ''audit_log'' [''event'', ''at'']"
    by blast
  from conflict_strategy[of "[''id'']" "''id''" "[''event'', ''at'']" "''mig_topology''"
         "''audit_log''"] p3 k3
  have c: "insert_query ''mig_topology'' ''audit_log'' (pk_column [''id'']) [''event'', ''at'']
       = OnConflictNothing ''mig_topology'' ''audit_log'' [''event'', ''at'']"
    by blast
  show ?thesis using p1 p2 p3 k1 k3 a b c by simp
qed

section \<open>Composite primary keys\<close>

text \<open>
  C1, as the script has it. When the catalog lists more than one primary-key column, the
  lookup reports the first one listed, not none: \<open>fetchone\<close> takes the first row. If
  that column is a reconciled column the statement is the on-conflict update keyed on
  it alone; the duplicate-skip statement is built only when it is not a reconciled
  column (or has the empty name).
\<close>

theorem composite_key_reports_first_column:
  assumes "pk_rows = k # k2 # others"
  shows "pk_column pk_rows = Some k
       \<and> (k \<noteq> [] \<and> k \<in> set cols \<longrightarrow>
            insert_query ts t (pk_column pk_rows) cols
              = OnConflictUpdate ts t cols k (filter (\<lambda>c. c \<noteq> k) cols))
       \<and> (k = [] \<or> k \<notin> set cols \<longrightarrow>
            insert_query ts t (pk_column pk_rows) cols = OnConflictNothing ts t cols)"
  using assms by (auto simp: pk_column_def insert_query_def)

theorem composite_key_reports_first_column_witness:
  "pk_column [''pool_address'', ''block_number''] = Some ''pool_address''
   \<and> ''pool_address'' \<noteq> []
   \<and> ''pool_address'' \<in> set [''pool_address'', ''block_number'', ''tvl_usd'']
   \<and> insert_query ''mig_topology'' ''pool_state_snapshots''
        (pk_column [''pool_address'', ''block_number''])
        [''pool_address'', ''block_number'', ''tvl_usd'']
       = OnConflictUpdate ''mig_topology'' ''pool_state_snapshots''
           [''pool_address'', ''block_number'', ''tvl_usd''] ''pool_address''
           [''block_number'', ''tvl_usd'']
   \<and> ''pool_address'' \<notin> set [''block_number'', ''tvl_usd'']
   \<and> insert_query ''mig_topology'' ''pool_state_snapshots''
        (pk_column [''pool_address'', ''block_number'']) [''block_number'', ''tvl_usd'']
       = OnConflictNothing ''mig_topology'' ''pool_state_snapshots'' [''block_number'', ''tvl_usd'']"
proof -
  have r: "[''pool_address'', ''block_number''] = ''pool_address'' # ''block_number'' # []"
    by simp
  note t1 = composite_key_reports_first_column[OF r,
              of "[''pool_address'', ''block_number'', ''tvl_usd'']" "''mig_topology''"
                 "''pool_state_snapshots''"]
  note t2 = composite_key_reports_first_column[OF r,
              of "[''block_number'', ''tvl_usd'']" "''mig_topology''" "''pool_state_snapshots''"]
  have k1: "''pool_address'' \<noteq> []"
    "''pool_address'' \<in> set [''pool_address'', ''block_number'', ''tvl_usd'']"
    and k2: "''pool_address'' \<notin> set [''block_number'', ''tvl_usd'']"
    by simp_all
  from t1 have p: "pk_column [''pool_address'', ''block_number''] = Some ''pool_address''"
    by blast
  from t1 k1 have a: "insert_query ''mig_topology'' ''pool_state_snapshots''
        (pk_column [''pool_address'', ''block_number''])
        [''pool_address'', ''block_number'', ''tvl_usd'']
       = OnConflictUpdate ''mig_topology'' ''pool_state_snapshots''
           [''pool_address'', ''block_number'', ''tvl_usd''] ''pool_address''
           [''block_number'', ''tvl_usd'']"
    by auto
  from t2 k2 have b: "insert_query ''mig_topology'' ''pool_state_snapshots''
        (pk_column [''pool_address'', ''block_number'']) [''block_number'', ''tvl_usd'']
       = OnConflictNothing ''mig_topology'' ''pool_state_snapshots'' [''block_number'', ''tvl_usd'']"
    by blast
  show ?thesis using p k1 k2 a b by simp
qed

text \<open>
  C1 as stated fails: for the composite key \<open>(pool_address, block_number)\<close> the lookup
  reports \<open>pool_address\<close>, and the statement built is the on-conflict update keyed on it.
\<close>

theorem composite_key_counterexample:
  "length [''pool_address'', ''block_number''] > 1
   \<and> pk_column [''pool_address'', ''block_number''] \<noteq> None
   \<and> insert_query ''mig_topology'' ''pool_state_snapshots''
        (pk_column [''pool_address'', ''block_number''])
        [''pool_address'', ''block_number'', ''tvl_usd'']
       \<noteq> OnConflictNothing ''mig_topology'' ''pool_state_snapshots''
            [''pool_address'', ''block_number'', ''tvl_usd'']
   \<and> insert_query ''mig_topology'' ''pool_state_snapshots''
        (pk_column [''pool_address'', ''block_number''])
        [''pool_address'', ''block_number'', ''tvl_usd'']
       = OnConflictUpdate ''mig_topology'' ''pool_state_snapshots''
           [''pool_address'', ''block_number'', ''tvl_usd''] ''pool_address''
           [''block_number'', ''tvl_usd'']"
  by (simp add: pk_column_def insert_query_def)

end
